theory Spec2Isabelle
  imports Main "HOL-Library.Word" "HOL-Library.AList"
begin

section \<open>The device store of onos-topo\<close>

text \<open>
  The store (\<^verbatim>\<open>atomixStore\<close>, package \<^verbatim>\<open>device\<close>) keeps one protobuf-encoded
  \<^verbatim>\<open>Device\<close> per key in a replicated map and uses the map's entry version as the
  device revision. Two libraries sit below it: the protobuf codec
  (\<^verbatim>\<open>proto.Marshal\<close>, \<^verbatim>\<open>proto.Unmarshal\<close>) and the Atomix map (\<^verbatim>\<open>_map.Map\<close>, a Go
  interface). Both are parameters of the model: every operation of the store is a
  function of the codec and of the map implementation it is given, and of the map's
  state, which the Go code reaches through the interface value.
\<close>

subsection \<open>Data\<close>

type_synonym byte = "8 word"
type_synonym uint64 = "64 word"
type_synonym int64 = "64 word"

text \<open>
  A 64-bit word carries no sign: a \<^verbatim>\<open>uint64\<close> is read with \<open>unat\<close> and compared
  with \<open><\<close>, an \<^verbatim>\<open>int64\<close> is read with \<open>sint\<close>. Go's conversions between the two keep
  the 64 bits: \<^verbatim>\<open>int64(device.Revision)\<close> and \<^verbatim>\<open>Revision(kv.Version)\<close>.
\<close>

definition to_int64 :: "uint64 \<Rightarrow> int64" where
  "to_int64 r = ucast r"

definition to_Revision :: "int64 \<Rightarrow> uint64" where
  "to_Revision v = ucast v"

record Credentials =
  User :: string
  Password :: string

text \<open>The field \<^verbatim>\<open>Key\<close> of \<^verbatim>\<open>TlsConfig\<close> is \<open>TlsKey\<close> here: \<open>Key\<close> is the key of a map entry.\<close>

record TlsConfig =
  CaCert :: string
  Cert :: string
  TlsKey :: string
  Plain :: bool
  Insecure :: bool

text \<open>
  Modelled from the spec: the \<^verbatim>\<open>Device\<close> message of package \<^verbatim>\<open>device\<close>, whose generated
  Go type is not among the sources. The store reads and writes its fields \<^verbatim>\<open>ID\<close> and
  \<^verbatim>\<open>Revision\<close>; the other fields are those of the data model (id, address, target,
  software version, timeout, credentials, TLS configuration, revision), with the Go
  types of the generated \<^verbatim>\<open>Device\<close> of package \<^verbatim>\<open>proto\<close>. A nil pointer is \<open>None\<close>.
\<close>

record Device =
  ID :: string
  Revision :: uint64
  Address :: string
  Target :: string
  SoftwareVersion :: string
  Timeout :: int64
  Creds :: "Credentials option"
  Tls :: "TlsConfig option"

text \<open>
  The error kinds of the design (\<open>TimeoutError\<close> is its \<^verbatim>\<open>Timeout\<close>); \<open>EncodeError\<close> is a
  failure of \<^verbatim>\<open>proto.Marshal\<close>.
\<close>

datatype error = ConflictError | DecodeError | EncodeError | TimeoutError | ClosedStore

text \<open>\<^verbatim>\<open>_map.KeyValue\<close>: an entry of the map as \<^verbatim>\<open>Get\<close>, \<^verbatim>\<open>Put\<close> and \<^verbatim>\<open>Entries\<close> return it.\<close>

record KeyValue =
  Key :: string
  Value :: "byte list"
  Version :: int64

text \<open>
  The kind of a map event and the type of a device event are Go string types;
  \<^verbatim>\<open>EventType(event.Type)\<close> converts one to the other and keeps the characters.
\<close>

type_synonym MapEventType = string
type_synonym EventType = string

definition EventType :: "MapEventType \<Rightarrow> EventType" where
  "EventType t = t"

definition EventNone :: EventType where "EventNone = []"
definition EventInserted :: EventType where "EventInserted = ''inserted''"
definition EventUpdated :: EventType where "EventUpdated = ''updated''"
definition EventRemoved :: EventType where "EventRemoved = ''removed''"

text \<open>\<^verbatim>\<open>_map.MapEvent\<close>: the fields the store reads.\<close>

record MapEvent =
  EvType :: MapEventType
  EvKey :: string
  EvValue :: "byte list"
  EvVersion :: int64

text \<open>\<^verbatim>\<open>Event\<close>: a store event for a device (fields \<^verbatim>\<open>Type\<close> and \<^verbatim>\<open>Device\<close>).\<close>

record Event =
  Type :: EventType
  Dev :: Device

text \<open>The options the store passes to the map.\<close>

datatype VersionOption = WithVersion int64
datatype WatchOption = WithReplay

text \<open>
  What a goroutine does on the channel it was given: the values it sends, in order, and
  the closing of the channel.
\<close>

datatype 'a chan_op = Send 'a | Close

text \<open>
  What a goroutine receives from a channel it ranges over: the items delivered, and
  whether the sender then closed the channel (which ends the \<^verbatim>\<open>for ... range\<close> loop).
\<close>

type_synonym 'a feed = "'a list \<times> bool"

subsection \<open>The two libraries, as parameters\<close>

text \<open>
  \<^verbatim>\<open>proto.Marshal\<close> returns the bytes or an error; \<^verbatim>\<open>proto.Unmarshal\<close> into a fresh
  \<^verbatim>\<open>&Device{}\<close> returns the device or an error.
\<close>

record codec =
  Marshal :: "Device \<Rightarrow> error + byte list"
  Unmarshal :: "byte list \<Rightarrow> error + Device"

text \<open>
  The methods of \<^verbatim>\<open>_map.Map\<close> that the store calls, on an explicit map state \<open>'m\<close>.
  \<^verbatim>\<open>Get\<close> returns an error, or no entry (\<^verbatim>\<open>nil, nil\<close>), or the entry. \<^verbatim>\<open>Put\<close> returns an
  error or the entry written, and the new state. \<^verbatim>\<open>Remove\<close> returns an error or the
  entry removed, if any, and the new state. \<^verbatim>\<open>Entries\<close> and \<^verbatim>\<open>Watch\<close> (here \<open>WatchMap\<close>:
  \<open>Watch\<close> is the store's method) return an error, or start feeding the channel they
  were given. The deadline of 15 seconds that \<^verbatim>\<open>Load\<close>, \<^verbatim>\<open>Store\<close> and \<^verbatim>\<open>Delete\<close> put
  on the call is one of the ways the map fails. \<^verbatim>\<open>Store\<close> reads \<^verbatim>\<open>kv.Version\<close> whenever
  \<^verbatim>\<open>Put\<close> returned no error: a \<^verbatim>\<open>Put\<close> without error comes with an entry.
\<close>

record 'm Map =
  Get :: "'m \<Rightarrow> string \<Rightarrow> error + KeyValue option"
  Put :: "'m \<Rightarrow> string \<Rightarrow> byte list \<Rightarrow> VersionOption list \<Rightarrow> (error + KeyValue) \<times> 'm"
  Remove :: "'m \<Rightarrow> string \<Rightarrow> VersionOption list \<Rightarrow> (error + KeyValue option) \<times> 'm"
  Entries :: "'m \<Rightarrow> error + KeyValue feed"
  WatchMap :: "'m \<Rightarrow> WatchOption list \<Rightarrow> error + MapEvent feed"

text \<open>\<^verbatim>\<open>atomixStore\<close>: the map handle (the \<^verbatim>\<open>closer\<close> is used by \<^verbatim>\<open>Close\<close> only).\<close>

record 'm atomixStore =
  devices :: "'m Map"

subsection \<open>The store\<close>

text \<open>\<^verbatim>\<open>decodeDevice\<close>\<close>

definition decodeDevice :: "codec \<Rightarrow> string \<Rightarrow> byte list \<Rightarrow> int64 \<Rightarrow> error + Device" where
  "decodeDevice P key value version =
     (case Unmarshal P value of
        Inl err \<Rightarrow> Inl err
      | Inr device \<Rightarrow> Inr (device\<lparr>ID := key, Revision := to_Revision version\<rparr>))"

text \<open>\<^verbatim>\<open>atomixStore.Load\<close>: the device, or \<open>None\<close> for \<^verbatim>\<open>nil, nil\<close>, or the error.\<close>

definition Load :: "codec \<Rightarrow> 'm atomixStore \<Rightarrow> 'm \<Rightarrow> string \<Rightarrow> error + Device option" where
  "Load P s m deviceID =
     (case Get (devices s) m deviceID of
        Inl err \<Rightarrow> Inl err
      | Inr None \<Rightarrow> Inr None
      | Inr (Some kv) \<Rightarrow>
          (case decodeDevice P (Key kv) (Value kv) (Version kv) of
             Inl err \<Rightarrow> Inl err
           | Inr device \<Rightarrow> Inr (Some device)))"

text \<open>
  \<^verbatim>\<open>atomixStore.Store\<close>. The Go method returns an error and writes through the pointer
  it was given: the result is the error (\<open>None\<close> for \<^verbatim>\<open>nil\<close>), the caller's device after
  the call, and the state of the map after the call.
\<close>

definition Store :: "codec \<Rightarrow> 'm atomixStore \<Rightarrow> 'm \<Rightarrow> Device \<Rightarrow> error option \<times> Device \<times> 'm" where
  "Store P s m device =
     (case Marshal P device of
        Inl err \<Rightarrow> (Some err, device, m)
      | Inr bytes \<Rightarrow>
          (case (if Revision device = 0
                 then Put (devices s) m (ID device) bytes []
                 else Put (devices s) m (ID device) bytes
                        [WithVersion (to_int64 (Revision device))]) of
             (Inl err, m') \<Rightarrow> (Some err, device, m')
           | (Inr kv, m') \<Rightarrow> (None, device\<lparr>Revision := to_Revision (Version kv)\<rparr>, m')))"

text \<open>\<^verbatim>\<open>atomixStore.Delete\<close>: the error and the state of the map after the call.\<close>

definition Delete :: "'m atomixStore \<Rightarrow> 'm \<Rightarrow> Device \<Rightarrow> error option \<times> 'm" where
  "Delete s m device =
     (if 0 < Revision device
      then (case Remove (devices s) m (ID device) [WithVersion (to_int64 (Revision device))] of
              (Inl err, m') \<Rightarrow> (Some err, m')
            | (Inr _, m') \<Rightarrow> (None, m'))
      else (case Remove (devices s) m (ID device) [] of
              (Inl err, m') \<Rightarrow> (Some err, m')
            | (Inr _, m') \<Rightarrow> (None, m')))"

text \<open>
  \<^verbatim>\<open>atomixStore.List\<close>. The loop of the goroutine, \<^verbatim>\<open>for kv := range mapCh\<close>, over the
  entries that \<^verbatim>\<open>mapCh\<close> delivers: an entry that decodes is sent on \<^verbatim>\<open>ch\<close>, one that does
  not is passed over. The send blocks until the consumer receives; the model is of a
  consumer that does.
\<close>

fun List_loop :: "codec \<Rightarrow> KeyValue list \<Rightarrow> Device chan_op list" where
  "List_loop P [] = []"
| "List_loop P (kv # kvs) =
     (case decodeDevice P (Key kv) (Value kv) (Version kv) of
        Inr device \<Rightarrow> Send device # List_loop P kvs
      | Inl err \<Rightarrow> List_loop P kvs)"

text \<open>The goroutine: the loop, then the deferred \<^verbatim>\<open>close(ch)\<close> once \<^verbatim>\<open>mapCh\<close> is closed.\<close>

definition List_goroutine :: "codec \<Rightarrow> KeyValue feed \<Rightarrow> Device chan_op list" where
  "List_goroutine P mapCh = List_loop P (fst mapCh) @ (if snd mapCh then [Close] else [])"

text \<open>
  \<^verbatim>\<open>List\<close> returns the error of \<^verbatim>\<open>Entries\<close> and starts no goroutine, or starts it and
  returns \<^verbatim>\<open>nil\<close>: the result is the error returned and what is done on \<^verbatim>\<open>ch\<close>.
\<close>

definition List :: "codec \<Rightarrow> 'm atomixStore \<Rightarrow> 'm \<Rightarrow> error option \<times> Device chan_op list" where
  "List P s m =
     (case Entries (devices s) m of
        Inl err \<Rightarrow> (Some err, [])
      | Inr mapCh \<Rightarrow> (None, List_goroutine P mapCh))"

text \<open>\<^verbatim>\<open>atomixStore.Watch\<close>, in the same way; the map is always asked for a replay.\<close>

fun Watch_loop :: "codec \<Rightarrow> MapEvent list \<Rightarrow> Event chan_op list" where
  "Watch_loop P [] = []"
| "Watch_loop P (event # events) =
     (case decodeDevice P (EvKey event) (EvValue event) (EvVersion event) of
        Inr device \<Rightarrow>
          Send \<lparr>Type = EventType (EvType event), Dev = device\<rparr> # Watch_loop P events
      | Inl err \<Rightarrow> Watch_loop P events)"

definition Watch_goroutine :: "codec \<Rightarrow> MapEvent feed \<Rightarrow> Event chan_op list" where
  "Watch_goroutine P mapCh = Watch_loop P (fst mapCh) @ (if snd mapCh then [Close] else [])"

definition Watch :: "codec \<Rightarrow> 'm atomixStore \<Rightarrow> 'm \<Rightarrow> error option \<times> Event chan_op list" where
  "Watch P s m =
     (case WatchMap (devices s) m [WithReplay] of
        Inl err \<Rightarrow> (Some err, [])
      | Inr mapCh \<Rightarrow> (None, Watch_goroutine P mapCh))"

subsection \<open>The replicated map of the design\<close>

text \<open>
  The Atomix map is outside the repository. Its reference implementation here follows
  the design's account of it (sections 2, 4.1 and 8): a map from keys to a value and a
  version; a put without expected version creates the entry or overwrites it; a put with
  an expected version is refused with \<open>ConflictError\<close> unless the entry exists at that
  version; a write gives the entry the version after the one it had, and 1 to a new
  entry; a remove with an expected version is refused with \<open>ConflictError\<close> when the
  entry exists at another version; removing a key that has no entry is not an error.
  The entries are an association list, in the order of the enumeration.
\<close>

type_synonym rmap_state = "(string \<times> byte list \<times> int64) list"

text \<open>The expected version that a list of options asks for: the last one given, if any.\<close>

definition expected_version :: "VersionOption list \<Rightarrow> int64 option" where
  "expected_version opts = fold (\<lambda>opt _. case opt of WithVersion v \<Rightarrow> Some v) opts None"

definition version_matches :: "int64 option \<Rightarrow> int64 \<Rightarrow> bool" where
  "version_matches expected version =
     (case expected of None \<Rightarrow> True | Some v \<Rightarrow> version = v)"

definition rmap_Get :: "rmap_state \<Rightarrow> string \<Rightarrow> error + KeyValue option" where
  "rmap_Get m key =
     (case map_of m key of
        None \<Rightarrow> Inr None
      | Some (value, version) \<Rightarrow> Inr (Some \<lparr>Key = key, Value = value, Version = version\<rparr>))"

definition rmap_Put ::
  "rmap_state \<Rightarrow> string \<Rightarrow> byte list \<Rightarrow> VersionOption list \<Rightarrow> (error + KeyValue) \<times> rmap_state" where
  "rmap_Put m key value opts =
     (case map_of m key of
        None \<Rightarrow>
          (if expected_version opts = None
           then (Inr \<lparr>Key = key, Value = value, Version = 1\<rparr>, AList.update key (value, 1) m)
           else (Inl ConflictError, m))
      | Some (old, version) \<Rightarrow>
          (if version_matches (expected_version opts) version
           then (Inr \<lparr>Key = key, Value = value, Version = version + 1\<rparr>,
                 AList.update key (value, version + 1) m)
           else (Inl ConflictError, m)))"

definition rmap_Remove ::
  "rmap_state \<Rightarrow> string \<Rightarrow> VersionOption list \<Rightarrow> (error + KeyValue option) \<times> rmap_state" where
  "rmap_Remove m key opts =
     (case map_of m key of
        None \<Rightarrow> (Inr None, m)
      | Some (value, version) \<Rightarrow>
          (if version_matches (expected_version opts) version
           then (Inr (Some \<lparr>Key = key, Value = value, Version = version\<rparr>), AList.delete key m)
           else (Inl ConflictError, m)))"

definition rmap_entry :: "string \<times> byte list \<times> int64 \<Rightarrow> KeyValue" where
  "rmap_entry e = \<lparr>Key = fst e, Value = fst (snd e), Version = snd (snd e)\<rparr>"

definition rmap_Entries :: "rmap_state \<Rightarrow> error + KeyValue feed" where
  "rmap_Entries m = Inr (map rmap_entry m, True)"

text \<open>
  The feed of a watch, up to the end of the replay: with \<open>WithReplay\<close>, one event per
  entry, as if it had just been inserted. The feed is not closed.
\<close>

definition rmap_replay :: "string \<times> byte list \<times> int64 \<Rightarrow> MapEvent" where
  "rmap_replay e =
     \<lparr>EvType = ''inserted'', EvKey = fst e, EvValue = fst (snd e), EvVersion = snd (snd e)\<rparr>"

definition rmap_Watch :: "rmap_state \<Rightarrow> WatchOption list \<Rightarrow> error + MapEvent feed" where
  "rmap_Watch m opts = Inr (if WithReplay \<in> set opts then map rmap_replay m else [], False)"

definition rmap :: "rmap_state Map" where
  "rmap = \<lparr>Get = rmap_Get, Put = rmap_Put, Remove = rmap_Remove,
           Entries = rmap_Entries, WatchMap = rmap_Watch\<rparr>"

definition rstore :: "rmap_state atomixStore" where
  "rstore = \<lparr>devices = rmap\<rparr>"

text \<open>A map that is out of reach: every call runs into its deadline.\<close>

definition deadmap :: "unit Map" where
  "deadmap = \<lparr>Get = (\<lambda>m key. Inl TimeoutError), Put = (\<lambda>m key value opts. (Inl TimeoutError, m)),
              Remove = (\<lambda>m key opts. (Inl TimeoutError, m)), Entries = (\<lambda>m. Inl TimeoutError),
              WatchMap = (\<lambda>m opts. Inl TimeoutError)\<rparr>"

subsection \<open>The protobuf codec, for evaluation\<close>

text \<open>
  The protobuf library is outside the repository too. This codec is the proto3 wire
  format of the \<^verbatim>\<open>Device\<close> message: a field is a tag (field number and wire type, as a
  varint) and a value; a string or a nested message is length-delimited (wire type 2),
  an integer or a boolean is a varint (wire type 0); a field that holds the zero value
  of its type (the empty string, 0, false, nil) is not written. The numbers of
  \<^verbatim>\<open>address\<close> to \<^verbatim>\<open>tls\<close> (3 to 8) and of the fields of \<^verbatim>\<open>Credentials\<close> and \<^verbatim>\<open>TlsConfig\<close> are
  those of \<^verbatim>\<open>device.proto\<close>; \<^verbatim>\<open>id\<close> and \<^verbatim>\<open>revision\<close> are taken to be 1 and 2. Strings are
  taken to be valid UTF-8, which the library checks.
\<close>

definition byte_of_char :: "char \<Rightarrow> byte" where
  "byte_of_char c = of_char c"

definition char_of_byte :: "byte \<Rightarrow> char" where
  "char_of_byte b = char_of (unat b)"

function put_varint :: "nat \<Rightarrow> byte list" where
  "put_varint n =
     (if n < 128 then [of_nat n] else of_nat (128 + n mod 128) # put_varint (n div 128))"
  by pat_completeness auto
termination
  by (relation "measure id") auto

fun get_varint :: "byte list \<Rightarrow> (nat \<times> byte list) option" where
  "get_varint [] = None"
| "get_varint (b # bs) =
     (if b < 128 then Some (unat b, bs)
      else (case get_varint bs of
              None \<Rightarrow> None
            | Some (n, rest) \<Rightarrow> Some (unat b - 128 + 128 * n, rest)))"

datatype wire = Varint nat | Fixed64 "byte list" | Bytes "byte list" | Fixed32 "byte list"

definition get_value :: "nat \<Rightarrow> byte list \<Rightarrow> (wire \<times> byte list) option" where
  "get_value wt bs =
     (if wt = 0 then
        (case get_varint bs of None \<Rightarrow> None | Some (n, rest) \<Rightarrow> Some (Varint n, rest))
      else if wt = 1 then
        (if length bs < 8 then None else Some (Fixed64 (take 8 bs), drop 8 bs))
      else if wt = 2 then
        (case get_varint bs of
           None \<Rightarrow> None
         | Some (n, rest) \<Rightarrow>
             if length rest < n then None else Some (Bytes (take n rest), drop n rest))
      else if wt = 5 then
        (if length bs < 4 then None else Some (Fixed32 (take 4 bs), drop 4 bs))
      else None)"

function get_fields :: "byte list \<Rightarrow> (nat \<times> wire) list option" where
  "get_fields bs =
     (if bs = [] then Some []
      else (case get_varint bs of
              None \<Rightarrow> None
            | Some (tag, rest) \<Rightarrow>
                if tag div 8 = 0 then None
                else (case get_value (tag mod 8) rest of
                        None \<Rightarrow> None
                      | Some (w, rest') \<Rightarrow>
                          (case get_fields rest' of
                             None \<Rightarrow> None
                           | Some fs \<Rightarrow> Some ((tag div 8, w) # fs)))))"
  by pat_completeness auto
termination
proof -
  have varint: "length rest < length bs" if "get_varint bs = Some (n, rest)" for bs n rest
    using that by (induction bs arbitrary: n rest) (auto split: if_splits option.splits)
  have val: "length rest \<le> length bs" if "get_value wt bs = Some (w, rest)" for wt bs w rest
    using that
    by (auto simp: get_value_def split: if_splits option.splits dest!: varint)
  show ?thesis
    by (relation "measure length") (auto dest!: varint val)
qed

declare put_varint.simps [simp del]
declare get_fields.simps [simp del]

definition put_tag :: "nat \<Rightarrow> nat \<Rightarrow> byte list" where
  "put_tag num wt = put_varint (8 * num + wt)"

definition put_string :: "nat \<Rightarrow> string \<Rightarrow> byte list" where
  "put_string num s =
     (if s = [] then [] else put_tag num 2 @ put_varint (length s) @ map byte_of_char s)"

definition put_uint64 :: "nat \<Rightarrow> 64 word \<Rightarrow> byte list" where
  "put_uint64 num v = (if v = 0 then [] else put_tag num 0 @ put_varint (unat v))"

definition put_bool :: "nat \<Rightarrow> bool \<Rightarrow> byte list" where
  "put_bool num b = (if b then put_tag num 0 @ put_varint 1 else [])"

definition put_message :: "nat \<Rightarrow> byte list option \<Rightarrow> byte list" where
  "put_message num msg =
     (case msg of None \<Rightarrow> [] | Some bs \<Rightarrow> put_tag num 2 @ put_varint (length bs) @ bs)"

definition encode_Credentials :: "Credentials \<Rightarrow> byte list" where
  "encode_Credentials c = put_string 1 (User c) @ put_string 2 (Password c)"

definition encode_TlsConfig :: "TlsConfig \<Rightarrow> byte list" where
  "encode_TlsConfig t =
     put_string 3 (CaCert t) @ put_string 4 (Cert t) @ put_string 5 (TlsKey t) @
     put_bool 6 (Plain t) @ put_bool 7 (Insecure t)"

definition proto_Marshal :: "Device \<Rightarrow> error + byte list" where
  "proto_Marshal d =
     Inr (put_string 1 (ID d) @ put_uint64 2 (Revision d) @ put_string 3 (Address d) @
          put_string 4 (Target d) @ put_string 5 (SoftwareVersion d) @
          put_uint64 6 (Timeout d) @ put_message 7 (map_option encode_Credentials (Creds d)) @
          put_message 8 (map_option encode_TlsConfig (Tls d)))"

text \<open>
  Decoding sets the fields in the order of the input; a field whose number or wire type
  the message does not have is passed over; input that is cut short or has a wire type
  that does not exist is an error.
\<close>

fun set_Credentials :: "nat \<times> wire \<Rightarrow> Credentials \<Rightarrow> Credentials" where
  "set_Credentials (num, Bytes bs) c =
     (if num = 1 then c\<lparr>User := map char_of_byte bs\<rparr>
      else if num = 2 then c\<lparr>Password := map char_of_byte bs\<rparr>
      else c)"
| "set_Credentials (num, w) c = c"

fun set_TlsConfig :: "nat \<times> wire \<Rightarrow> TlsConfig \<Rightarrow> TlsConfig" where
  "set_TlsConfig (num, Bytes bs) t =
     (if num = 3 then t\<lparr>CaCert := map char_of_byte bs\<rparr>
      else if num = 4 then t\<lparr>Cert := map char_of_byte bs\<rparr>
      else if num = 5 then t\<lparr>TlsKey := map char_of_byte bs\<rparr>
      else t)"
| "set_TlsConfig (num, Varint n) t =
     (if num = 6 then t\<lparr>Plain := (n \<noteq> 0)\<rparr>
      else if num = 7 then t\<lparr>Insecure := (n \<noteq> 0)\<rparr>
      else t)"
| "set_TlsConfig (num, w) t = t"

definition zero_Credentials :: Credentials where
  "zero_Credentials = \<lparr>User = [], Password = []\<rparr>"

definition zero_TlsConfig :: TlsConfig where
  "zero_TlsConfig = \<lparr>CaCert = [], Cert = [], TlsKey = [], Plain = False, Insecure = False\<rparr>"

definition zero_Device :: Device where
  "zero_Device = \<lparr>ID = [], Revision = 0, Address = [], Target = [], SoftwareVersion = [],
                   Timeout = 0, Creds = None, Tls = None\<rparr>"

definition decode_Credentials :: "Credentials option \<Rightarrow> byte list \<Rightarrow> Credentials option" where
  "decode_Credentials into bs =
     (case get_fields bs of
        None \<Rightarrow> None
      | Some fs \<Rightarrow> Some (fold set_Credentials fs (case into of None \<Rightarrow> zero_Credentials | Some c \<Rightarrow> c)))"

definition decode_TlsConfig :: "TlsConfig option \<Rightarrow> byte list \<Rightarrow> TlsConfig option" where
  "decode_TlsConfig into bs =
     (case get_fields bs of
        None \<Rightarrow> None
      | Some fs \<Rightarrow> Some (fold set_TlsConfig fs (case into of None \<Rightarrow> zero_TlsConfig | Some t \<Rightarrow> t)))"

fun set_Device :: "nat \<times> wire \<Rightarrow> Device \<Rightarrow> Device option" where
  "set_Device (num, Bytes bs) d =
     (if num = 1 then Some (d\<lparr>ID := map char_of_byte bs\<rparr>)
      else if num = 3 then Some (d\<lparr>Address := map char_of_byte bs\<rparr>)
      else if num = 4 then Some (d\<lparr>Target := map char_of_byte bs\<rparr>)
      else if num = 5 then Some (d\<lparr>SoftwareVersion := map char_of_byte bs\<rparr>)
      else if num = 7 then
        (case decode_Credentials (Creds d) bs of
           None \<Rightarrow> None
         | Some c \<Rightarrow> Some (d\<lparr>Creds := Some c\<rparr>))
      else if num = 8 then
        (case decode_TlsConfig (Tls d) bs of
           None \<Rightarrow> None
         | Some t \<Rightarrow> Some (d\<lparr>Tls := Some t\<rparr>))
      else Some d)"
| "set_Device (num, Varint n) d =
     (if num = 2 then Some (d\<lparr>Revision := of_nat n\<rparr>)
      else if num = 6 then Some (d\<lparr>Timeout := of_nat n\<rparr>)
      else Some d)"
| "set_Device (num, w) d = Some d"

fun set_Device_fields :: "(nat \<times> wire) list \<Rightarrow> Device \<Rightarrow> Device option" where
  "set_Device_fields [] d = Some d"
| "set_Device_fields (f # fs) d =
     (case set_Device f d of None \<Rightarrow> None | Some d' \<Rightarrow> set_Device_fields fs d')"

definition proto_Unmarshal :: "byte list \<Rightarrow> error + Device" where
  "proto_Unmarshal bs =
     (case get_fields bs of
        None \<Rightarrow> Inl DecodeError
      | Some fs \<Rightarrow>
          (case set_Device_fields fs zero_Device of
             None \<Rightarrow> Inl DecodeError
           | Some d \<Rightarrow> Inr d))"

definition proto :: codec where
  "proto = \<lparr>Marshal = proto_Marshal, Unmarshal = proto_Unmarshal\<rparr>"

subsection \<open>Notions used in the statements\<close>

text \<open>The version that the reference map holds for a key, and the one its next write gives.\<close>

definition current_version :: "rmap_state \<Rightarrow> string \<Rightarrow> int64 option" where
  "current_version m key = map_option snd (map_of m key)"

definition next_version :: "rmap_state \<Rightarrow> string \<Rightarrow> int64" where
  "next_version m key = (case map_of m key of None \<Rightarrow> 1 | Some (old, version) \<Rightarrow> version + 1)"

text \<open>The payload that the reference map holds for a key.\<close>

definition current_value :: "rmap_state \<Rightarrow> string \<Rightarrow> byte list option" where
  "current_value m key = map_option fst (map_of m key)"

text \<open>What one pass of the loop of \<^verbatim>\<open>List\<close> sends for an entry, if anything.\<close>

definition decoded :: "codec \<Rightarrow> KeyValue \<Rightarrow> Device option" where
  "decoded P kv =
     (case decodeDevice P (Key kv) (Value kv) (Version kv) of
        Inl err \<Rightarrow> None
      | Inr device \<Rightarrow> Some device)"

text \<open>
  The event translator: what one pass of the loop of \<^verbatim>\<open>Watch\<close> sends for a map event,
  if anything.
\<close>

definition translate :: "codec \<Rightarrow> MapEvent \<Rightarrow> Event option" where
  "translate P event =
     (case decodeDevice P (EvKey event) (EvValue event) (EvVersion event) of
        Inl err \<Rightarrow> None
      | Inr device \<Rightarrow> Some \<lparr>Type = EventType (EvType event), Dev = device\<rparr>)"

text \<open>The fields that the wire format of a device consists of, in the order written.\<close>

definition Device_fields :: "Device \<Rightarrow> (nat \<times> wire) list" where
  "Device_fields d =
     (if ID d = [] then [] else [(1, Bytes (map byte_of_char (ID d)))]) @
     (if Revision d = 0 then [] else [(2, Varint (unat (Revision d)))]) @
     (if Address d = [] then [] else [(3, Bytes (map byte_of_char (Address d)))]) @
     (if Target d = [] then [] else [(4, Bytes (map byte_of_char (Target d)))]) @
     (if SoftwareVersion d = [] then [] else [(5, Bytes (map byte_of_char (SoftwareVersion d)))]) @
     (if Timeout d = 0 then [] else [(6, Varint (unat (Timeout d)))]) @
     (case map_option encode_Credentials (Creds d) of None \<Rightarrow> [] | Some bs \<Rightarrow> [(7, Bytes bs)]) @
     (case map_option encode_TlsConfig (Tls d) of None \<Rightarrow> [] | Some bs \<Rightarrow> [(8, Bytes bs)]) @ []"

text \<open>A codec whose \<^verbatim>\<open>Marshal\<close> fails.\<close>

definition nocodec :: codec where
  "nocodec = \<lparr>Marshal = (\<lambda>d. Inl EncodeError), Unmarshal = (\<lambda>bs. Inl DecodeError)\<rparr>"

text \<open>
  The device of the end-to-end scenario of the design, before its first \<^verbatim>\<open>Store\<close> and
  after it, and the payloads that the codec writes for the two.
\<close>

definition d1 :: Device where
  "d1 = \<lparr>ID = ''d1'', Revision = 0, Address = ''10.0.0.1:830'', Target = [],
          SoftwareVersion = [], Timeout = 0, Creds = None, Tls = None\<rparr>"

definition d1_rev1 :: Device where
  "d1_rev1 = \<lparr>ID = ''d1'', Revision = 1, Address = ''10.0.0.1:830'', Target = [],
               SoftwareVersion = [], Timeout = 0, Creds = None, Tls = None\<rparr>"

definition d1_payload :: "byte list" where
  "d1_payload = [10, 2, 100, 49, 26, 12, 49, 48, 46, 48, 46, 48, 46, 49, 58, 56, 51, 48]"

definition d1_rev1_payload :: "byte list" where
  "d1_rev1_payload =
     [10, 2, 100, 49, 16, 1, 26, 12, 49, 48, 46, 48, 46, 48, 46, 49, 58, 56, 51, 48]"

section \<open>Properties\<close>

subsection \<open>Conversions and the reference map\<close>

lemma to_Revision_to_int64: "to_Revision (to_int64 r) = r"
  by (simp add: to_Revision_def to_int64_def)

lemma to_int64_to_Revision: "to_int64 (to_Revision v) = v"
  by (simp add: to_Revision_def to_int64_def)

lemma Store_Marshal_error: "Marshal P d = Inl e \<Longrightarrow> Store P s m d = (Some e, d, m)"
  by (simp add: Store_def)

lemma Store_unconditional:
  "Marshal P d = Inr bytes \<Longrightarrow> Revision d = 0 \<Longrightarrow>
   Store P s m d =
     (case Put (devices s) m (ID d) bytes [] of
        (Inl e, m') \<Rightarrow> (Some e, d, m')
      | (Inr kv, m') \<Rightarrow> (None, d\<lparr>Revision := to_Revision (Version kv)\<rparr>, m'))"
  by (simp add: Store_def)

lemma Store_conditional:
  "Marshal P d = Inr bytes \<Longrightarrow> Revision d \<noteq> 0 \<Longrightarrow>
   Store P s m d =
     (case Put (devices s) m (ID d) bytes [WithVersion (to_int64 (Revision d))] of
        (Inl e, m') \<Rightarrow> (Some e, d, m')
      | (Inr kv, m') \<Rightarrow> (None, d\<lparr>Revision := to_Revision (Version kv)\<rparr>, m'))"
  by (simp add: Store_def)

lemma expected_version_Nil: "expected_version [] = None"
  by (simp add: expected_version_def)

lemma expected_version_single: "expected_version [WithVersion v] = Some v"
  by (simp add: expected_version_def)

lemma rstore_Put: "Put (devices rstore) = rmap_Put"
  by (simp add: rstore_def rmap_def)

lemma rstore_Remove: "Remove (devices rstore) = rmap_Remove"
  by (simp add: rstore_def rmap_def)

lemma rstore_Get: "Get (devices rstore) = rmap_Get"
  by (simp add: rstore_def rmap_def)

lemma rstore_Entries: "Entries (devices rstore) = rmap_Entries"
  by (simp add: rstore_def rmap_def)

lemma rstore_WatchMap: "WatchMap (devices rstore) = rmap_Watch"
  by (simp add: rstore_def rmap_def)

lemma rmap_Put_unconditional:
  "rmap_Put m key value [] =
     (Inr \<lparr>Key = key, Value = value, Version = next_version m key\<rparr>,
      AList.update key (value, next_version m key) m)"
  by (simp add: rmap_Put_def next_version_def expected_version_Nil version_matches_def
      split: option.splits)

lemma rmap_Put_match:
  "current_version m key = Some v \<Longrightarrow>
   rmap_Put m key value [WithVersion v] =
     (Inr \<lparr>Key = key, Value = value, Version = v + 1\<rparr>, AList.update key (value, v + 1) m)"
  by (auto simp: rmap_Put_def current_version_def expected_version_single version_matches_def
      split: option.splits)

lemma rmap_Put_conflict:
  "current_version m key \<noteq> Some v \<Longrightarrow> rmap_Put m key value [WithVersion v] = (Inl ConflictError, m)"
  by (auto simp: rmap_Put_def current_version_def expected_version_single version_matches_def
      split: option.splits)

lemma Delete_conditional:
  "0 < Revision d \<Longrightarrow>
   Delete s m d =
     (case Remove (devices s) m (ID d) [WithVersion (to_int64 (Revision d))] of
        (Inl e, m') \<Rightarrow> (Some e, m')
      | (Inr kv, m') \<Rightarrow> (None, m'))"
  by (simp add: Delete_def)

lemma Delete_unconditional:
  "Revision d = 0 \<Longrightarrow>
   Delete s m d =
     (case Remove (devices s) m (ID d) [] of
        (Inl e, m') \<Rightarrow> (Some e, m')
      | (Inr kv, m') \<Rightarrow> (None, m'))"
  by (simp add: Delete_def)

lemma rmap_Remove_absent:
  "current_version m key = None \<Longrightarrow> rmap_Remove m key opts = (Inr None, m)"
  by (simp add: rmap_Remove_def current_version_def)

lemma rmap_Remove_unconditional:
  "\<exists>r. rmap_Remove m key [] = (Inr r, AList.delete key m)"
proof (cases "map_of m key")
  case None
  then have "key \<notin> fst ` set m" by (simp add: map_of_eq_None_iff)
  then show ?thesis using None by (simp add: rmap_Remove_def)
next
  case (Some e)
  then show ?thesis
    by (simp add: rmap_Remove_def expected_version_Nil version_matches_def split: prod.splits)
qed

lemma rmap_Remove_match:
  "current_version m key = Some v \<Longrightarrow>
   \<exists>r. rmap_Remove m key [WithVersion v] = (Inr r, AList.delete key m)"
  by (auto simp: rmap_Remove_def current_version_def expected_version_single version_matches_def
      split: option.splits)

lemma rmap_Remove_conflict:
  "current_version m key = Some v' \<Longrightarrow> v' \<noteq> v \<Longrightarrow>
   rmap_Remove m key [WithVersion v] = (Inl ConflictError, m)"
  by (auto simp: rmap_Remove_def current_version_def expected_version_single version_matches_def
      split: option.splits)

lemma List_loop_map_filter: "List_loop P kvs = map Send (List.map_filter (decoded P) kvs)"
  by (induction kvs) (auto simp: List.map_filter_simps decoded_def split: sum.splits)

lemma Watch_loop_map_filter: "Watch_loop P events = map Send (List.map_filter (translate P) events)"
  by (induction events) (auto simp: List.map_filter_simps translate_def split: sum.splits)

subsection \<open>The wire format: what is written is read back\<close>

lemma char_of_byte_of_char: "char_of_byte (byte_of_char c) = c"
proof -
  have "byte_of_char c = of_nat (of_char c)"
    by (simp add: byte_of_char_def of_nat_of_char)
  then have "unat (byte_of_char c) = of_char c mod 256"
    by (simp add: unat_of_nat)
  then show ?thesis
    by (simp add: char_of_byte_def)
qed

lemma map_char_of_byte: "map (char_of_byte \<circ> byte_of_char) s = s"
  by (induction s) (simp_all add: char_of_byte_of_char)

lemma low_byte: "n < 128 \<Longrightarrow> (of_nat n :: byte) < 128 \<and> unat (of_nat n :: byte) = n"
  by (simp add: word_less_nat_alt unat_of_nat)

lemma unat_byte: "k < 256 \<Longrightarrow> unat (of_nat k :: byte) = k"
  by (simp add: unat_of_nat)

lemma high_byte:
  "\<not> (of_nat (128 + n mod 128) :: byte) < 128 \<and> unat (of_nat (128 + n mod 128) :: byte) = 128 + n mod 128"
proof -
  have "128 + n mod 128 < 256" by simp
  then have u: "unat (of_nat (128 + n mod 128) :: byte) = 128 + n mod 128"
    by (rule unat_byte)
  then show ?thesis by (simp add: word_less_nat_alt)
qed

lemma get_varint_put_varint: "get_varint (put_varint n @ rest) = Some (n, rest)"
proof (induction n rule: put_varint.induct)
  case (1 n)
  show ?case
  proof (cases "n < 128")
    case True
    then show ?thesis
      by (subst put_varint.simps) (simp add: low_byte)
  next
    case False
    with 1 have IH: "get_varint (put_varint (n div 128) @ rest) = Some (n div 128, rest)"
      by simp
    have "put_varint n = of_nat (128 + n mod 128) # put_varint (n div 128)"
      using False by (subst put_varint.simps) simp
    then show ?thesis
      using IH high_byte [of n] by simp
  qed
qed

lemma get_value_Varint: "get_value 0 (put_varint n @ rest) = Some (Varint n, rest)"
  by (simp add: get_value_def get_varint_put_varint)

lemma get_value_Bytes:
  "get_value 2 (put_varint (length bs) @ bs @ rest) = Some (Bytes bs, rest)"
  by (simp add: get_value_def get_varint_put_varint)

lemma put_varint_not_Nil: "put_varint n \<noteq> []"
  by (subst put_varint.simps) simp

lemma get_fields_Nil: "get_fields [] = Some []"
  by (subst get_fields.simps) simp

lemma get_fields_field:
  assumes "0 < num" and "wt < 8"
    and "get_value wt body = Some (w, rest)"
    and "get_fields rest = Some fs"
  shows "get_fields (put_tag num wt @ body) = Some ((num, w) # fs)"
proof -
  have t: "(8 * num + wt) div 8 = num" "(8 * num + wt) mod 8 = wt"
    using assms(2) by simp_all
  have v: "get_varint (put_tag num wt @ body) = Some (8 * num + wt, body)"
    by (simp add: put_tag_def get_varint_put_varint)
  have n: "put_tag num wt @ body \<noteq> []"
    by (simp add: put_tag_def put_varint_not_Nil)
  show ?thesis
    using assms n v t by (subst get_fields.simps) simp
qed

lemma get_fields_put_string:
  assumes "0 < num" and "get_fields rest = Some fs"
  shows "get_fields (put_string num s @ rest) =
           Some ((if s = [] then [] else [(num, Bytes (map byte_of_char s))]) @ fs)"
proof (cases "s = []")
  case True
  then show ?thesis using assms by (simp add: put_string_def)
next
  case False
  have "get_value 2 (put_varint (length (map byte_of_char s)) @ map byte_of_char s @ rest) =
          Some (Bytes (map byte_of_char s), rest)"
    by (rule get_value_Bytes)
  then have "get_fields (put_tag num 2 @ put_varint (length s) @ map byte_of_char s @ rest) =
          Some ((num, Bytes (map byte_of_char s)) # fs)"
    using assms by (intro get_fields_field) simp_all
  then show ?thesis using False by (simp add: put_string_def)
qed

lemma get_fields_put_uint64:
  assumes "0 < num" and "get_fields rest = Some fs"
  shows "get_fields (put_uint64 num v @ rest) =
           Some ((if v = 0 then [] else [(num, Varint (unat v))]) @ fs)"
proof (cases "v = 0")
  case True
  then show ?thesis using assms by (simp add: put_uint64_def)
next
  case False
  have "get_fields (put_tag num 0 @ put_varint (unat v) @ rest) = Some ((num, Varint (unat v)) # fs)"
    using assms by (intro get_fields_field) (simp_all add: get_value_Varint)
  then show ?thesis using False by (simp add: put_uint64_def)
qed

lemma get_fields_put_bool:
  assumes "0 < num" and "get_fields rest = Some fs"
  shows "get_fields (put_bool num b @ rest) = Some ((if b then [(num, Varint 1)] else []) @ fs)"
proof (cases b)
  case False
  then show ?thesis using assms by (simp add: put_bool_def)
next
  case True
  have "get_fields (put_tag num 0 @ put_varint 1 @ rest) = Some ((num, Varint 1) # fs)"
    using assms by (intro get_fields_field) (simp_all add: get_value_Varint)
  then show ?thesis using True by (simp add: put_bool_def)
qed

lemma get_fields_put_message:
  assumes "0 < num" and "get_fields rest = Some fs"
  shows "get_fields (put_message num msg @ rest) =
           Some ((case msg of None \<Rightarrow> [] | Some bs \<Rightarrow> [(num, Bytes bs)]) @ fs)"
proof (cases msg)
  case None
  then show ?thesis using assms by (simp add: put_message_def)
next
  case (Some bs)
  have "get_fields (put_tag num 2 @ put_varint (length bs) @ bs @ rest) = Some ((num, Bytes bs) # fs)"
    using assms by (intro get_fields_field) (simp_all add: get_value_Bytes)
  then show ?thesis using Some by (simp add: put_message_def)
qed


subsection \<open>Nested messages\<close>

lemma decode_encode_Credentials: "decode_Credentials None (encode_Credentials c) = Some c"
proof -
  have g2: "get_fields (put_string 2 (Password c) @ []) =
      Some ((if Password c = [] then [] else [(2, Bytes (map byte_of_char (Password c)))]) @ [])"
    by (rule get_fields_put_string) (simp_all add: get_fields_Nil)
  have g1: "get_fields (put_string 1 (User c) @ put_string 2 (Password c) @ []) =
      Some ((if User c = [] then [] else [(1, Bytes (map byte_of_char (User c)))]) @
            (if Password c = [] then [] else [(2, Bytes (map byte_of_char (Password c)))]) @ [])"
    by (rule get_fields_put_string) (simp, rule g2)
  show ?thesis
    using g1
    by (cases c) (simp add: decode_Credentials_def encode_Credentials_def zero_Credentials_def
        map_char_of_byte)
qed

lemma decode_encode_TlsConfig: "decode_TlsConfig None (encode_TlsConfig t) = Some t"
proof -
  have g7: "get_fields (put_bool 7 (Insecure t) @ []) =
      Some ((if Insecure t then [(7, Varint 1)] else []) @ [])"
    by (rule get_fields_put_bool) (simp_all add: get_fields_Nil)
  have g6: "get_fields (put_bool 6 (Plain t) @ put_bool 7 (Insecure t) @ []) =
      Some ((if Plain t then [(6, Varint 1)] else []) @
            (if Insecure t then [(7, Varint 1)] else []) @ [])"
    by (rule get_fields_put_bool) (simp, rule g7)
  have g5: "get_fields (put_string 5 (TlsKey t) @ put_bool 6 (Plain t) @ put_bool 7 (Insecure t) @ []) =
      Some ((if TlsKey t = [] then [] else [(5, Bytes (map byte_of_char (TlsKey t)))]) @
            (if Plain t then [(6, Varint 1)] else []) @
            (if Insecure t then [(7, Varint 1)] else []) @ [])"
    by (rule get_fields_put_string) (simp, rule g6)
  have g4: "get_fields (put_string 4 (Cert t) @ put_string 5 (TlsKey t) @ put_bool 6 (Plain t) @
                        put_bool 7 (Insecure t) @ []) =
      Some ((if Cert t = [] then [] else [(4, Bytes (map byte_of_char (Cert t)))]) @
            (if TlsKey t = [] then [] else [(5, Bytes (map byte_of_char (TlsKey t)))]) @
            (if Plain t then [(6, Varint 1)] else []) @
            (if Insecure t then [(7, Varint 1)] else []) @ [])"
    by (rule get_fields_put_string) (simp, rule g5)
  have g3: "get_fields (put_string 3 (CaCert t) @ put_string 4 (Cert t) @ put_string 5 (TlsKey t) @
                        put_bool 6 (Plain t) @ put_bool 7 (Insecure t) @ []) =
      Some ((if CaCert t = [] then [] else [(3, Bytes (map byte_of_char (CaCert t)))]) @
            (if Cert t = [] then [] else [(4, Bytes (map byte_of_char (Cert t)))]) @
            (if TlsKey t = [] then [] else [(5, Bytes (map byte_of_char (TlsKey t)))]) @
            (if Plain t then [(6, Varint 1)] else []) @
            (if Insecure t then [(7, Varint 1)] else []) @ [])"
    by (rule get_fields_put_string) (simp, rule g4)
  show ?thesis
    using g3
    by (cases t) (simp add: decode_TlsConfig_def encode_TlsConfig_def zero_TlsConfig_def
        map_char_of_byte)
qed

subsection \<open>Setting the fields of a device\<close>

lemma set_ID:
  "ID z = [] \<Longrightarrow>
   set_Device_fields ((if s = [] then [] else [(1, Bytes (map byte_of_char s))]) @ fs) z =
   set_Device_fields fs (z\<lparr>ID := s\<rparr>)"
  by (cases z) (simp add: map_char_of_byte)

lemma set_Revision:
  "Revision z = 0 \<Longrightarrow>
   set_Device_fields ((if v = 0 then [] else [(2, Varint (unat v))]) @ fs) z =
   set_Device_fields fs (z\<lparr>Revision := v\<rparr>)"
  by (cases z) simp

lemma set_Address:
  "Address z = [] \<Longrightarrow>
   set_Device_fields ((if s = [] then [] else [(3, Bytes (map byte_of_char s))]) @ fs) z =
   set_Device_fields fs (z\<lparr>Address := s\<rparr>)"
  by (cases z) (simp add: map_char_of_byte)

lemma set_Target:
  "Target z = [] \<Longrightarrow>
   set_Device_fields ((if s = [] then [] else [(4, Bytes (map byte_of_char s))]) @ fs) z =
   set_Device_fields fs (z\<lparr>Target := s\<rparr>)"
  by (cases z) (simp add: map_char_of_byte)

lemma set_SoftwareVersion:
  "SoftwareVersion z = [] \<Longrightarrow>
   set_Device_fields ((if s = [] then [] else [(5, Bytes (map byte_of_char s))]) @ fs) z =
   set_Device_fields fs (z\<lparr>SoftwareVersion := s\<rparr>)"
  by (cases z) (simp add: map_char_of_byte)

lemma set_Timeout:
  "Timeout z = 0 \<Longrightarrow>
   set_Device_fields ((if v = 0 then [] else [(6, Varint (unat v))]) @ fs) z =
   set_Device_fields fs (z\<lparr>Timeout := v\<rparr>)"
  by (cases z) simp

lemma set_Creds:
  "Creds z = None \<Longrightarrow>
   set_Device_fields
     ((case map_option encode_Credentials c of None \<Rightarrow> [] | Some bs \<Rightarrow> [(7, Bytes bs)]) @ fs) z =
   set_Device_fields fs (z\<lparr>Creds := c\<rparr>)"
  by (cases z; cases c) (simp_all add: decode_encode_Credentials)

lemma set_Tls:
  "Tls z = None \<Longrightarrow>
   set_Device_fields
     ((case map_option encode_TlsConfig t of None \<Rightarrow> [] | Some bs \<Rightarrow> [(8, Bytes bs)]) @ fs) z =
   set_Device_fields fs (z\<lparr>Tls := t\<rparr>)"
  by (cases z; cases t) (simp_all add: decode_encode_TlsConfig)

lemma set_Device_fields_Device_fields: "set_Device_fields (Device_fields d) zero_Device = Some d"
proof -
  have "set_Device_fields (Device_fields d) zero_Device =
        set_Device_fields []
          (zero_Device\<lparr>ID := ID d, Revision := Revision d, Address := Address d, Target := Target d,
             SoftwareVersion := SoftwareVersion d, Timeout := Timeout d, Creds := Creds d,
             Tls := Tls d\<rparr>)"
    unfolding Device_fields_def
    by (simp only: set_ID set_Revision set_Address set_Target set_SoftwareVersion set_Timeout
        set_Creds set_Tls zero_Device_def Device.simps)
  also have "\<dots> = Some d"
    by (cases d) (simp add: zero_Device_def)
  finally show ?thesis .
qed

lemma get_fields_Marshal:
  "get_fields
     (put_string 1 (ID d) @ put_uint64 2 (Revision d) @ put_string 3 (Address d) @
      put_string 4 (Target d) @ put_string 5 (SoftwareVersion d) @
      put_uint64 6 (Timeout d) @ put_message 7 (map_option encode_Credentials (Creds d)) @
      put_message 8 (map_option encode_TlsConfig (Tls d)) @ []) = Some (Device_fields d)"
  unfolding Device_fields_def
  by (intro get_fields_put_string get_fields_put_uint64 get_fields_put_message get_fields_Nil)
     simp_all

lemma proto_roundtrip: "\<exists>bytes. proto_Marshal d = Inr bytes \<and> proto_Unmarshal bytes = Inr d"
  using get_fields_Marshal [of d]
  by (simp add: proto_Marshal_def proto_Unmarshal_def set_Device_fields_Device_fields)


lemma proto_Marshal_Unmarshal:
  "Marshal proto d = Inr bytes \<Longrightarrow> Unmarshal proto bytes = Inr d"
  using proto_roundtrip [of d] by (auto simp: proto_def)

lemma d1_Marshal: "Marshal proto d1 = Inr d1_payload"
  by code_simp

lemma d1_rev1_Marshal: "Marshal proto d1_rev1 = Inr d1_rev1_payload"
  by code_simp

section \<open>The claims\<close>

subsection \<open>Store\<close>

text \<open>
  C1. \<^verbatim>\<open>Store\<close> of a device whose revision is 0 issues a put without expected version
  for the key \<open>ID d\<close>, which on the reference map creates the entry or overwrites it
  whatever its version; \<^verbatim>\<open>Store\<close> of a device whose revision is not 0 issues a put that
  expects that revision, which succeeds when the map holds the key at that version and
  fails with \<open>ConflictError\<close>, the map unchanged, when it does not.
\<close>

theorem Store_put:
  assumes "Marshal P d = Inr bytes"
  shows "(Revision d = 0 \<longrightarrow>
            Store P s m d =
              (case Put (devices s) m (ID d) bytes [] of
                 (Inl e, m') \<Rightarrow> (Some e, d, m')
               | (Inr kv, m') \<Rightarrow> (None, d\<lparr>Revision := to_Revision (Version kv)\<rparr>, m'))) \<and>
         (Revision d \<noteq> 0 \<longrightarrow>
            Store P s m d =
              (case Put (devices s) m (ID d) bytes [WithVersion (to_int64 (Revision d))] of
                 (Inl e, m') \<Rightarrow> (Some e, d, m')
               | (Inr kv, m') \<Rightarrow> (None, d\<lparr>Revision := to_Revision (Version kv)\<rparr>, m'))) \<and>
         (Revision d = 0 \<longrightarrow>
            Store P rstore r d =
              (None, d\<lparr>Revision := to_Revision (next_version r (ID d))\<rparr>,
               AList.update (ID d) (bytes, next_version r (ID d)) r)) \<and>
         (Revision d \<noteq> 0 \<and> current_version r (ID d) = Some (to_int64 (Revision d)) \<longrightarrow>
            Store P rstore r d =
              (None, d\<lparr>Revision := Revision d + 1\<rparr>,
               AList.update (ID d) (bytes, to_int64 (Revision d) + 1) r)) \<and>
         (Revision d \<noteq> 0 \<and> current_version r (ID d) \<noteq> Some (to_int64 (Revision d)) \<longrightarrow>
            Store P rstore r d = (Some ConflictError, d, r))"
proof (intro conjI impI)
  assume "Revision d = 0"
  then show "Store P s m d =
      (case Put (devices s) m (ID d) bytes [] of
         (Inl e, m') \<Rightarrow> (Some e, d, m')
       | (Inr kv, m') \<Rightarrow> (None, d\<lparr>Revision := to_Revision (Version kv)\<rparr>, m'))"
    using assms by (rule Store_unconditional [rotated])
next
  assume "Revision d \<noteq> 0"
  then show "Store P s m d =
      (case Put (devices s) m (ID d) bytes [WithVersion (to_int64 (Revision d))] of
         (Inl e, m') \<Rightarrow> (Some e, d, m')
       | (Inr kv, m') \<Rightarrow> (None, d\<lparr>Revision := to_Revision (Version kv)\<rparr>, m'))"
    using assms by (rule Store_conditional [rotated])
next
  assume "Revision d = 0"
  then show "Store P rstore r d =
      (None, d\<lparr>Revision := to_Revision (next_version r (ID d))\<rparr>,
       AList.update (ID d) (bytes, next_version r (ID d)) r)"
    using assms by (simp add: Store_unconditional rstore_Put rmap_Put_unconditional)
next
  assume h: "Revision d \<noteq> 0 \<and> current_version r (ID d) = Some (to_int64 (Revision d))"
  then have "rmap_Put r (ID d) bytes [WithVersion (to_int64 (Revision d))] =
      (Inr \<lparr>Key = ID d, Value = bytes, Version = to_int64 (Revision d) + 1\<rparr>,
       AList.update (ID d) (bytes, to_int64 (Revision d) + 1) r)"
    by (simp add: rmap_Put_match)
  then show "Store P rstore r d =
      (None, d\<lparr>Revision := Revision d + 1\<rparr>,
       AList.update (ID d) (bytes, to_int64 (Revision d) + 1) r)"
    using assms h by (simp add: Store_conditional rstore_Put to_Revision_def to_int64_def)
next
  assume h: "Revision d \<noteq> 0 \<and> current_version r (ID d) \<noteq> Some (to_int64 (Revision d))"
  then have "rmap_Put r (ID d) bytes [WithVersion (to_int64 (Revision d))] = (Inl ConflictError, r)"
    by (simp add: rmap_Put_conflict)
  then show "Store P rstore r d = (Some ConflictError, d, r)"
    using assms h by (simp add: Store_conditional rstore_Put)
qed

theorem Store_put_witness:
  "Marshal proto d1 = Inr d1_payload \<and> Revision d1 = 0 \<and>
   Store proto rstore [] d1 = (None, d1_rev1, [(''d1'', d1_payload, 1)]) \<and>
   Store proto rstore [(''d1'', [], 7)] d1 =
     (None, d1\<lparr>Revision := 8\<rparr>, [(''d1'', d1_payload, 8)]) \<and>
   Marshal proto d1_rev1 = Inr d1_rev1_payload \<and> Revision d1_rev1 \<noteq> 0 \<and>
   current_version [(''d1'', d1_payload, 1)] (ID d1_rev1) = Some (to_int64 (Revision d1_rev1)) \<and>
   Store proto rstore [(''d1'', d1_payload, 1)] d1_rev1 =
     (None, d1_rev1\<lparr>Revision := 2\<rparr>, [(''d1'', d1_rev1_payload, 2)]) \<and>
   current_version [(''d1'', d1_rev1_payload, 2)] (ID d1_rev1) \<noteq> Some (to_int64 (Revision d1_rev1)) \<and>
   Store proto rstore [(''d1'', d1_rev1_payload, 2)] d1_rev1 =
     (Some ConflictError, d1_rev1, [(''d1'', d1_rev1_payload, 2)]) \<and>
   current_version [] (ID d1_rev1) \<noteq> Some (to_int64 (Revision d1_rev1)) \<and>
   Store proto rstore [] d1_rev1 = (Some ConflictError, d1_rev1, [])"
proof -
  have z: "Revision d1 = 0" and n: "Revision d1_rev1 \<noteq> 0"
    by (simp_all add: d1_def d1_rev1_def)
  have c1: "current_version [(''d1'', d1_payload, 1)] (ID d1_rev1) = Some (to_int64 (Revision d1_rev1))"
    by (simp add: current_version_def d1_rev1_def to_int64_def)
  have c2: "current_version [(''d1'', d1_rev1_payload, 2)] (ID d1_rev1) \<noteq> Some (to_int64 (Revision d1_rev1))"
    by (simp add: current_version_def d1_rev1_def to_int64_def)
  have c3: "current_version [] (ID d1_rev1) \<noteq> Some (to_int64 (Revision d1_rev1))"
    by (simp add: current_version_def)
  have "Store proto rstore [] d1 =
      (None, d1\<lparr>Revision := to_Revision (next_version [] (ID d1))\<rparr>,
       AList.update (ID d1) (d1_payload, next_version [] (ID d1)) [])"
    using Store_put [OF d1_Marshal, where s = rstore and m = "[]" and r = "[]"] z by blast
  then have s1: "Store proto rstore [] d1 = (None, d1_rev1, [(''d1'', d1_payload, 1)])"
    by (simp add: next_version_def to_Revision_def d1_def d1_rev1_def)
  have "Store proto rstore [(''d1'', [], 7)] d1 =
      (None, d1\<lparr>Revision := to_Revision (next_version [(''d1'', [], 7)] (ID d1))\<rparr>,
       AList.update (ID d1) (d1_payload, next_version [(''d1'', [], 7)] (ID d1)) [(''d1'', [], 7)])"
    using Store_put [OF d1_Marshal, where s = rstore and m = "[(''d1'', [], 7)]" and r = "[(''d1'', [], 7)]"] z by blast
  then have s2: "Store proto rstore [(''d1'', [], 7)] d1 =
      (None, d1\<lparr>Revision := 8\<rparr>, [(''d1'', d1_payload, 8)])"
    by (simp add: next_version_def to_Revision_def d1_def)
  have "Store proto rstore [(''d1'', d1_payload, 1)] d1_rev1 =
      (None, d1_rev1\<lparr>Revision := Revision d1_rev1 + 1\<rparr>,
       AList.update (ID d1_rev1) (d1_rev1_payload, to_int64 (Revision d1_rev1) + 1)
         [(''d1'', d1_payload, 1)])"
    using Store_put [OF d1_rev1_Marshal, where s = rstore and m = "[(''d1'', d1_payload, 1)]" and r = "[(''d1'', d1_payload, 1)]"] n c1 by blast
  then have s3: "Store proto rstore [(''d1'', d1_payload, 1)] d1_rev1 =
      (None, d1_rev1\<lparr>Revision := 2\<rparr>, [(''d1'', d1_rev1_payload, 2)])"
    by (simp add: to_int64_def d1_rev1_def)
  have s4: "Store proto rstore [(''d1'', d1_rev1_payload, 2)] d1_rev1 =
      (Some ConflictError, d1_rev1, [(''d1'', d1_rev1_payload, 2)])"
    using Store_put [OF d1_rev1_Marshal, where s = rstore and m = "[(''d1'', d1_rev1_payload, 2)]" and r = "[(''d1'', d1_rev1_payload, 2)]"] n c2
    by blast
  have s5: "Store proto rstore [] d1_rev1 = (Some ConflictError, d1_rev1, [])"
    using Store_put [OF d1_rev1_Marshal, where s = rstore and m = "[]" and r = "[]"] n c3
    by blast
  show ?thesis
    using s1 s2 s3 s4 s5 z n c1 c2 c3 d1_Marshal d1_rev1_Marshal by blast
qed

text \<open>
  C4. When \<^verbatim>\<open>Store\<close> succeeds, the caller's device is the device passed with its
  revision replaced by the version of the entry that the map's put returned, and nothing
  else changed; on the reference map that revision is the version the map now holds for
  the key.
\<close>

theorem Store_revision_updated:
  "(Store P s m d = (None, d', m') \<longrightarrow>
      (\<exists>bytes kv.
          Marshal P d = Inr bytes \<and>
          Put (devices s) m (ID d) bytes
            (if Revision d = 0 then [] else [WithVersion (to_int64 (Revision d))]) = (Inr kv, m') \<and>
          d' = d\<lparr>Revision := to_Revision (Version kv)\<rparr>)) \<and>
   (Store P rstore r d = (None, d'', r') \<longrightarrow>
      current_version r' (ID d'') = Some (to_int64 (Revision d'')))"
proof (intro conjI impI)
  assume "Store P s m d = (None, d', m')"
  then show "\<exists>bytes kv.
      Marshal P d = Inr bytes \<and>
      Put (devices s) m (ID d) bytes
        (if Revision d = 0 then [] else [WithVersion (to_int64 (Revision d))]) = (Inr kv, m') \<and>
      d' = d\<lparr>Revision := to_Revision (Version kv)\<rparr>"
    by (auto simp: Store_def split: sum.splits if_splits prod.splits)
next
  assume a: "Store P rstore r d = (None, d'', r')"
  then obtain bytes where b: "Marshal P d = Inr bytes"
    by (auto simp: Store_def split: sum.splits)
  show "current_version r' (ID d'') = Some (to_int64 (Revision d''))"
  proof (cases "Revision d = 0")
    case True
    with a b have "d'' = d\<lparr>Revision := to_Revision (next_version r (ID d))\<rparr>"
      and "r' = AList.update (ID d) (bytes, next_version r (ID d)) r"
      by (simp_all add: Store_unconditional rstore_Put rmap_Put_unconditional)
    then show ?thesis
      by (simp add: current_version_def update_conv' to_int64_to_Revision)
  next
    case False
    show ?thesis
    proof (cases "current_version r (ID d) = Some (to_int64 (Revision d))")
      case True
      with a b False have "d'' = d\<lparr>Revision := to_Revision (to_int64 (Revision d) + 1)\<rparr>"
        and "r' = AList.update (ID d) (bytes, to_int64 (Revision d) + 1) r"
        by (simp_all add: Store_conditional rstore_Put rmap_Put_match)
      then show ?thesis
        by (simp add: current_version_def update_conv' to_int64_to_Revision)
    next
      case c: False
      with a b False show ?thesis
        by (simp add: Store_conditional rstore_Put rmap_Put_conflict)
    qed
  qed
qed

theorem Store_revision_updated_witness:
  "Store proto rstore [(''d1'', d1_payload, 1)] d1_rev1 =
     (None, d1_rev1\<lparr>Revision := 2\<rparr>, [(''d1'', d1_rev1_payload, 2)]) \<and>
   (\<exists>bytes kv.
       Marshal proto d1_rev1 = Inr bytes \<and>
       Put (devices rstore) [(''d1'', d1_payload, 1)] (ID d1_rev1) bytes
         (if Revision d1_rev1 = 0 then [] else [WithVersion (to_int64 (Revision d1_rev1))]) =
         (Inr kv, [(''d1'', d1_rev1_payload, 2)]) \<and>
       d1_rev1\<lparr>Revision := 2\<rparr> = d1_rev1\<lparr>Revision := to_Revision (Version kv)\<rparr>) \<and>
   current_version [(''d1'', d1_rev1_payload, 2)] (ID (d1_rev1\<lparr>Revision := 2\<rparr>)) =
     Some (to_int64 (Revision (d1_rev1\<lparr>Revision := 2\<rparr>)))"
proof -
  have s: "Store proto rstore [(''d1'', d1_payload, 1)] d1_rev1 =
      (None, d1_rev1\<lparr>Revision := 2\<rparr>, [(''d1'', d1_rev1_payload, 2)])"
    by code_simp
  show ?thesis
    using s Store_revision_updated [where P = proto and s = rstore
        and m = "[(''d1'', d1_payload, 1)]" and d = d1_rev1
        and d' = "d1_rev1\<lparr>Revision := 2\<rparr>" and m' = "[(''d1'', d1_rev1_payload, 2)]"
        and r = "[(''d1'', d1_payload, 1)]" and d'' = "d1_rev1\<lparr>Revision := 2\<rparr>"
        and r' = "[(''d1'', d1_rev1_payload, 2)]"]
    by blast
qed

text \<open>
  C10. When \<^verbatim>\<open>Store\<close> returns an error, whichever it is, the caller's device is as it
  was passed.
\<close>

theorem Store_error_unchanged:
  assumes "Store P s m d = (Some e, d', m')"
  shows "d' = d"
  using assms by (auto simp: Store_def split: sum.splits if_splits prod.splits)

theorem Store_error_unchanged_witness:
  "fst (Store proto rstore [(''d1'', d1_rev1_payload, 2)] d1_rev1) = Some ConflictError \<and>
   fst (snd (Store proto rstore [(''d1'', d1_rev1_payload, 2)] d1_rev1)) = d1_rev1 \<and>
   fst (Store nocodec rstore [] d1) = Some EncodeError \<and>
   fst (snd (Store nocodec rstore [] d1)) = d1 \<and>
   fst (Store proto \<lparr>devices = deadmap\<rparr> () d1) = Some TimeoutError \<and>
   fst (snd (Store proto \<lparr>devices = deadmap\<rparr> () d1)) = d1"
proof -
  have unchanged: "fst (snd (Store P s m d)) = d" if "fst (Store P s m d) = Some e"
    for P and s :: "'m atomixStore" and m d e
  proof -
    obtain x d' m' where t: "Store P s m d = (x, d', m')"
      by (cases "Store P s m d") auto
    with that have "Store P s m d = (Some e, d', m')" by simp
    then have "d' = d" by (rule Store_error_unchanged)
    with t show ?thesis by simp
  qed
  have e1: "fst (Store proto rstore [(''d1'', d1_rev1_payload, 2)] d1_rev1) = Some ConflictError"
    by code_simp
  have e2: "fst (Store nocodec rstore [] d1) = Some EncodeError"
    by (simp add: Store_def nocodec_def)
  have e3: "fst (Store proto \<lparr>devices = deadmap\<rparr> () d1) = Some TimeoutError"
    using d1_Marshal by (simp add: Store_def deadmap_def d1_def)
  show ?thesis
    using e1 e2 e3 unchanged [OF e1] unchanged [OF e2] unchanged [OF e3] by simp
qed

subsection \<open>Delete\<close>

text \<open>
  C5. \<^verbatim>\<open>Delete\<close> of a device whose revision is above 0 issues a remove that expects that
  revision, which on the reference map removes the entry when it is at that version and
  fails with \<open>ConflictError\<close>, the map unchanged, when it is at another; \<^verbatim>\<open>Delete\<close> of a
  device whose revision is 0 issues a remove without expected version, which removes
  the entry whatever its version; deleting a key that has no entry returns no error.
\<close>

theorem Delete_remove:
  "(0 < Revision d \<longrightarrow>
      Delete s m d =
        (case Remove (devices s) m (ID d) [WithVersion (to_int64 (Revision d))] of
           (Inl e, m') \<Rightarrow> (Some e, m')
         | (Inr kv, m') \<Rightarrow> (None, m'))) \<and>
   (Revision d = 0 \<longrightarrow>
      Delete s m d =
        (case Remove (devices s) m (ID d) [] of
           (Inl e, m') \<Rightarrow> (Some e, m')
         | (Inr kv, m') \<Rightarrow> (None, m'))) \<and>
   (0 < Revision d \<and> current_version r (ID d) = Some (to_int64 (Revision d)) \<longrightarrow>
      Delete rstore r d = (None, AList.delete (ID d) r)) \<and>
   (0 < Revision d \<and> current_version r (ID d) = Some v \<and> v \<noteq> to_int64 (Revision d) \<longrightarrow>
      Delete rstore r d = (Some ConflictError, r)) \<and>
   (Revision d = 0 \<longrightarrow> Delete rstore r d = (None, AList.delete (ID d) r)) \<and>
   (current_version r (ID d) = None \<longrightarrow> Delete rstore r d = (None, r))"
proof (intro conjI impI)
  assume "0 < Revision d"
  then show "Delete s m d =
      (case Remove (devices s) m (ID d) [WithVersion (to_int64 (Revision d))] of
         (Inl e, m') \<Rightarrow> (Some e, m')
       | (Inr kv, m') \<Rightarrow> (None, m'))"
    by (rule Delete_conditional)
next
  assume "Revision d = 0"
  then show "Delete s m d =
      (case Remove (devices s) m (ID d) [] of
         (Inl e, m') \<Rightarrow> (Some e, m')
       | (Inr kv, m') \<Rightarrow> (None, m'))"
    by (rule Delete_unconditional)
next
  assume h: "0 < Revision d \<and> current_version r (ID d) = Some (to_int64 (Revision d))"
  then obtain x where
    "rmap_Remove r (ID d) [WithVersion (to_int64 (Revision d))] = (Inr x, AList.delete (ID d) r)"
    using rmap_Remove_match by blast
  then show "Delete rstore r d = (None, AList.delete (ID d) r)"
    using h by (simp add: Delete_conditional rstore_Remove)
next
  assume h: "0 < Revision d \<and> current_version r (ID d) = Some v \<and> v \<noteq> to_int64 (Revision d)"
  then have "rmap_Remove r (ID d) [WithVersion (to_int64 (Revision d))] = (Inl ConflictError, r)"
    by (simp add: rmap_Remove_conflict)
  then show "Delete rstore r d = (Some ConflictError, r)"
    using h by (simp add: Delete_conditional rstore_Remove)
next
  assume h: "Revision d = 0"
  obtain x where "rmap_Remove r (ID d) [] = (Inr x, AList.delete (ID d) r)"
    using rmap_Remove_unconditional by blast
  then show "Delete rstore r d = (None, AList.delete (ID d) r)"
    using h by (simp add: Delete_unconditional rstore_Remove)
next
  assume h: "current_version r (ID d) = None"
  then have "rmap_Remove r (ID d) opts = (Inr None, r)" for opts
    by (rule rmap_Remove_absent)
  then show "Delete rstore r d = (None, r)"
    by (simp add: Delete_def rstore_Remove)
qed

theorem Delete_remove_witness:
  "0 < Revision d1_rev1 \<and> Revision d1 = 0 \<and>
   current_version [(''d1'', d1_payload, 1), (''d2'', [], 1)] (ID d1_rev1) =
     Some (to_int64 (Revision d1_rev1)) \<and>
   Delete rstore [(''d1'', d1_payload, 1), (''d2'', [], 1)] d1_rev1 = (None, [(''d2'', [], 1)]) \<and>
   current_version [(''d1'', d1_rev1_payload, 2)] (ID d1_rev1) = Some 2 \<and>
   2 \<noteq> to_int64 (Revision d1_rev1) \<and>
   Delete rstore [(''d1'', d1_rev1_payload, 2)] d1_rev1 =
     (Some ConflictError, [(''d1'', d1_rev1_payload, 2)]) \<and>
   Delete rstore [(''d1'', d1_rev1_payload, 2)] d1 = (None, []) \<and>
   current_version [] (ID d1_rev1) = None \<and>
   Delete rstore [] d1_rev1 = (None, []) \<and>
   Delete rstore [] d1 = (None, [])"
proof -
  have p: "0 < Revision d1_rev1" and z: "Revision d1 = 0"
    by (simp_all add: d1_def d1_rev1_def)
  have c1: "current_version [(''d1'', d1_payload, 1), (''d2'', [], 1)] (ID d1_rev1) =
      Some (to_int64 (Revision d1_rev1))"
    by (simp add: current_version_def d1_rev1_def to_int64_def)
  have c2: "current_version [(''d1'', d1_rev1_payload, 2)] (ID d1_rev1) = Some 2"
    by (simp add: current_version_def d1_rev1_def)
  have c3: "(2 :: int64) \<noteq> to_int64 (Revision d1_rev1)"
    by (simp add: d1_rev1_def to_int64_def)
  have c4: "current_version [] (ID d1_rev1) = None" and c5: "current_version [] (ID d1) = None"
    by (simp_all add: current_version_def)
  have "Delete rstore [(''d1'', d1_payload, 1), (''d2'', [], 1)] d1_rev1 =
      (None, AList.delete (ID d1_rev1) [(''d1'', d1_payload, 1), (''d2'', [], 1)])"
    using Delete_remove [where s = rstore and d = d1_rev1
        and m = "[(''d1'', d1_payload, 1), (''d2'', [], 1)]"
        and r = "[(''d1'', d1_payload, 1), (''d2'', [], 1)]" and v = 0] p c1
    by blast
  then have s1: "Delete rstore [(''d1'', d1_payload, 1), (''d2'', [], 1)] d1_rev1 =
      (None, [(''d2'', [], 1)])"
    by (simp add: d1_rev1_def)
  have s2: "Delete rstore [(''d1'', d1_rev1_payload, 2)] d1_rev1 =
      (Some ConflictError, [(''d1'', d1_rev1_payload, 2)])"
    using Delete_remove [where s = rstore and d = d1_rev1
        and m = "[(''d1'', d1_rev1_payload, 2)]"
        and r = "[(''d1'', d1_rev1_payload, 2)]" and v = 2] p c2 c3
    by blast
  have "Delete rstore [(''d1'', d1_rev1_payload, 2)] d1 =
      (None, AList.delete (ID d1) [(''d1'', d1_rev1_payload, 2)])"
    using Delete_remove [where s = rstore and d = d1
        and m = "[(''d1'', d1_rev1_payload, 2)]"
        and r = "[(''d1'', d1_rev1_payload, 2)]" and v = 0] z
    by blast
  then have s3: "Delete rstore [(''d1'', d1_rev1_payload, 2)] d1 = (None, [])"
    by (simp add: d1_def)
  have s4: "Delete rstore [] d1_rev1 = (None, [])"
    using Delete_remove [where s = rstore and d = d1_rev1 and m = "[]" and r = "[]" and v = 0] c4
    by blast
  have s5: "Delete rstore [] d1 = (None, [])"
    using Delete_remove [where s = rstore and d = d1 and m = "[]" and r = "[]" and v = 0] c5
    by blast
  show ?thesis
    using p z c1 c2 c3 c4 s1 s2 s3 s4 s5 by blast
qed

subsection \<open>Load\<close>

text \<open>
  C6. \<^verbatim>\<open>Load\<close> returns no device and no error when the map has no entry for the key;
  it returns the decoder's error when the entry's bytes do not parse; otherwise it
  returns the decoded device, with the entry's key and version as id and revision. An
  error of the map's \<^verbatim>\<open>Get\<close> is returned as it is.
\<close>

theorem Load_cases:
  "(Get (devices s) m deviceID = Inr None \<longrightarrow> Load P s m deviceID = Inr None) \<and>
   (Get (devices s) m deviceID = Inr (Some kv) \<and> Unmarshal P (Value kv) = Inl e \<longrightarrow>
      Load P s m deviceID = Inl e) \<and>
   (Get (devices s) m deviceID = Inr (Some kv) \<and> Unmarshal P (Value kv) = Inr d \<longrightarrow>
      Load P s m deviceID = Inr (Some (d\<lparr>ID := Key kv, Revision := to_Revision (Version kv)\<rparr>))) \<and>
   (Get (devices s) m deviceID = Inl e \<longrightarrow> Load P s m deviceID = Inl e)"
  by (simp add: Load_def decodeDevice_def)

theorem Load_cases_witness:
  "Get (devices rstore) [(''d1'', d1_payload, 1), (''d2'', [10], 4)] ''d3'' = Inr None \<and>
   Load proto rstore [(''d1'', d1_payload, 1), (''d2'', [10], 4)] ''d3'' = Inr None \<and>
   Get (devices rstore) [(''d1'', d1_payload, 1), (''d2'', [10], 4)] ''d2'' =
     Inr (Some \<lparr>Key = ''d2'', Value = [10], Version = 4\<rparr>) \<and>
   Unmarshal proto [10] = Inl DecodeError \<and>
   Load proto rstore [(''d1'', d1_payload, 1), (''d2'', [10], 4)] ''d2'' = Inl DecodeError \<and>
   Get (devices rstore) [(''d1'', d1_payload, 1), (''d2'', [10], 4)] ''d1'' =
     Inr (Some \<lparr>Key = ''d1'', Value = d1_payload, Version = 1\<rparr>) \<and>
   Unmarshal proto d1_payload = Inr d1 \<and>
   Load proto rstore [(''d1'', d1_payload, 1), (''d2'', [10], 4)] ''d1'' = Inr (Some d1_rev1) \<and>
   Get (devices \<lparr>devices = deadmap\<rparr>) () ''d1'' = Inl TimeoutError \<and>
   Load proto \<lparr>devices = deadmap\<rparr> () ''d1'' = Inl TimeoutError"
proof -
  let ?m = "[(''d1'', d1_payload, 1), (''d2'', [10], 4)] :: rmap_state"
  have g3: "Get (devices rstore) ?m ''d3'' = Inr None"
    by (simp add: rstore_Get rmap_Get_def)
  have g2: "Get (devices rstore) ?m ''d2'' = Inr (Some \<lparr>Key = ''d2'', Value = [10], Version = 4\<rparr>)"
    by (simp add: rstore_Get rmap_Get_def)
  have g1: "Get (devices rstore) ?m ''d1'' =
      Inr (Some \<lparr>Key = ''d1'', Value = d1_payload, Version = 1\<rparr>)"
    by (simp add: rstore_Get rmap_Get_def)
  have g0: "Get (devices \<lparr>devices = deadmap\<rparr>) () ''d1'' = Inl TimeoutError"
    by (simp add: deadmap_def)
  have u2: "Unmarshal proto [10] = Inl DecodeError"
    by code_simp
  have u1: "Unmarshal proto d1_payload = Inr d1"
    using d1_Marshal by (rule proto_Marshal_Unmarshal)
  have l3: "Load proto rstore ?m ''d3'' = Inr None"
    using Load_cases [where s = rstore and m = ?m and deviceID = "''d3''" and P = proto] g3
    by blast
  have l2: "Load proto rstore ?m ''d2'' = Inl DecodeError"
    using Load_cases [where s = rstore and m = ?m and deviceID = "''d2''" and P = proto
        and kv = "\<lparr>Key = ''d2'', Value = [10], Version = 4\<rparr>" and e = DecodeError] g2 u2
    by simp
  have "Load proto rstore ?m ''d1'' =
      Inr (Some (d1\<lparr>ID := Key \<lparr>Key = ''d1'', Value = d1_payload, Version = 1\<rparr>,
                     Revision := to_Revision (Version \<lparr>Key = ''d1'', Value = d1_payload, Version = 1\<rparr>)\<rparr>))"
    using Load_cases [where s = rstore and m = ?m and deviceID = "''d1''" and P = proto
        and kv = "\<lparr>Key = ''d1'', Value = d1_payload, Version = 1\<rparr>" and d = d1] g1 u1
    by simp
  then have l1: "Load proto rstore ?m ''d1'' = Inr (Some d1_rev1)"
    by (simp add: d1_def d1_rev1_def to_Revision_def)
  have l0: "Load proto \<lparr>devices = deadmap\<rparr> () ''d1'' = Inl TimeoutError"
    using Load_cases [where s = "\<lparr>devices = deadmap\<rparr>" and m = "()" and deviceID = "''d1''"
        and P = proto and e = TimeoutError] g0
    by blast
  show ?thesis
    using g3 g2 g1 g0 u2 u1 l3 l2 l1 l0 by blast
qed

subsection \<open>The codec\<close>

text \<open>
  C2. Decoding the bytes that encoding a device gave, with any key and version, returns
  that device with the key as id and the version as revision, and every other field as
  it was: for any codec that reads back the device it wrote, and so for the protobuf
  wire format, for every device.
\<close>

theorem decodeDevice_Marshal:
  "(Marshal P d = Inr bytes \<and> Unmarshal P bytes = Inr d \<longrightarrow>
      decodeDevice P key bytes version = Inr (d\<lparr>ID := key, Revision := to_Revision version\<rparr>)) \<and>
   (\<exists>bytes. Marshal proto d = Inr bytes \<and>
      decodeDevice proto key bytes version = Inr (d\<lparr>ID := key, Revision := to_Revision version\<rparr>))"
proof (intro conjI impI)
  assume "Marshal P d = Inr bytes \<and> Unmarshal P bytes = Inr d"
  then show "decodeDevice P key bytes version = Inr (d\<lparr>ID := key, Revision := to_Revision version\<rparr>)"
    by (simp add: decodeDevice_def)
next
  obtain bytes where "Marshal proto d = Inr bytes" and "Unmarshal proto bytes = Inr d"
    using proto_roundtrip [of d] by (auto simp: proto_def)
  then show "\<exists>bytes. Marshal proto d = Inr bytes \<and>
      decodeDevice proto key bytes version = Inr (d\<lparr>ID := key, Revision := to_Revision version\<rparr>)"
    by (auto simp: decodeDevice_def)
qed

theorem decodeDevice_Marshal_witness:
  "Marshal proto d1_rev1 = Inr d1_rev1_payload \<and> Unmarshal proto d1_rev1_payload = Inr d1_rev1 \<and>
   decodeDevice proto ''d9'' d1_rev1_payload 7 =
     Inr \<lparr>ID = ''d9'', Revision = 7, Address = ''10.0.0.1:830'', Target = [],
          SoftwareVersion = [], Timeout = 0, Creds = None, Tls = None\<rparr>"
proof -
  have u: "Unmarshal proto d1_rev1_payload = Inr d1_rev1"
    using d1_rev1_Marshal by (rule proto_Marshal_Unmarshal)
  have "decodeDevice proto ''d9'' d1_rev1_payload 7 =
      Inr (d1_rev1\<lparr>ID := ''d9'', Revision := to_Revision 7\<rparr>)"
    using decodeDevice_Marshal [where P = proto and d = d1_rev1 and bytes = d1_rev1_payload
        and key = "''d9''" and version = 7] d1_rev1_Marshal u
    by blast
  then show ?thesis
    using d1_rev1_Marshal u by (simp add: d1_rev1_def to_Revision_def)
qed

subsection \<open>List\<close>

lemma List_loop_Send:
  "Send device \<in> set (List_loop P kvs) \<longleftrightarrow>
     (\<exists>kv \<in> set kvs. decodeDevice P (Key kv) (Value kv) (Version kv) = Inr device)"
  by (induction kvs) (auto split: sum.splits)

lemma List_loop_Close: "Close \<notin> set (List_loop P kvs)"
  by (induction kvs) (auto split: sum.splits)

text \<open>
  C7. When the map's enumeration starts, \<^verbatim>\<open>List\<close> returns no error, whatever the
  enumeration then delivers; its goroutine sends the decoded device of every entry that
  decodes, in the order of the enumeration, sends nothing for an entry that does not,
  and closes the channel, as its last act, exactly if the enumeration ends. When the
  enumeration does not start, \<^verbatim>\<open>List\<close> returns the error and nothing is done on the
  channel.
\<close>

theorem List_delivery:
  "(Entries (devices s) m = Inr (kvs, closed) \<longrightarrow>
      List P s m =
        (None, map Send (List.map_filter (decoded P) kvs) @ (if closed then [Close] else [])) \<and>
      (\<forall>kv \<in> set kvs. \<forall>device. decodeDevice P (Key kv) (Value kv) (Version kv) = Inr device \<longrightarrow>
          Send device \<in> set (snd (List P s m))) \<and>
      (\<forall>device. Send device \<in> set (snd (List P s m)) \<longrightarrow>
          (\<exists>kv \<in> set kvs. decodeDevice P (Key kv) (Value kv) (Version kv) = Inr device)) \<and>
      (Close \<in> set (snd (List P s m)) \<longleftrightarrow> closed)) \<and>
   (Entries (devices s) m = Inl e \<longrightarrow> List P s m = (Some e, []))"
proof (intro conjI impI)
  assume a: "Entries (devices s) m = Inr (kvs, closed)"
  then show l: "List P s m =
      (None, map Send (List.map_filter (decoded P) kvs) @ (if closed then [Close] else []))"
    by (simp add: List_def List_goroutine_def List_loop_map_filter)
  have mem: "Send device \<in> set (snd (List P s m)) \<longleftrightarrow>
      (\<exists>kv \<in> set kvs. decodeDevice P (Key kv) (Value kv) (Version kv) = Inr device)" for device
    using a by (simp add: List_def List_goroutine_def List_loop_Send)
  show "\<forall>kv \<in> set kvs. \<forall>device. decodeDevice P (Key kv) (Value kv) (Version kv) = Inr device \<longrightarrow>
      Send device \<in> set (snd (List P s m))"
    using mem by blast
  show "\<forall>device. Send device \<in> set (snd (List P s m)) \<longrightarrow>
      (\<exists>kv \<in> set kvs. decodeDevice P (Key kv) (Value kv) (Version kv) = Inr device)"
    using mem by blast
  show "Close \<in> set (snd (List P s m)) \<longleftrightarrow> closed"
    using a by (simp add: List_def List_goroutine_def List_loop_Close)
next
  assume "Entries (devices s) m = Inl e"
  then show "List P s m = (Some e, [])"
    by (simp add: List_def)
qed

theorem List_delivery_witness:
  "Entries (devices rstore) [(''d1'', d1_payload, 1), (''d2'', [10], 4), (''d3'', [], 7)] =
     Inr ([\<lparr>Key = ''d1'', Value = d1_payload, Version = 1\<rparr>,
           \<lparr>Key = ''d2'', Value = [10], Version = 4\<rparr>,
           \<lparr>Key = ''d3'', Value = [], Version = 7\<rparr>], True) \<and>
   List proto rstore [(''d1'', d1_payload, 1), (''d2'', [10], 4), (''d3'', [], 7)] =
     (None, [Send d1_rev1, Send (zero_Device\<lparr>ID := ''d3'', Revision := 7\<rparr>), Close]) \<and>
   decodeDevice proto ''d2'' [10] 4 = Inl DecodeError \<and>
   Entries (devices \<lparr>devices = deadmap\<rparr>) () = Inl TimeoutError \<and>
   List proto \<lparr>devices = deadmap\<rparr> () = (Some TimeoutError, [])"
proof -
  let ?m = "[(''d1'', d1_payload, 1), (''d2'', [10], 4), (''d3'', [], 7)] :: rmap_state"
  let ?kvs = "[\<lparr>Key = ''d1'', Value = d1_payload, Version = 1\<rparr>,
               \<lparr>Key = ''d2'', Value = [10], Version = 4\<rparr>,
               \<lparr>Key = ''d3'', Value = [], Version = 7\<rparr>]"
  have en: "Entries (devices rstore) ?m = Inr (?kvs, True)"
    by (simp add: rstore_Entries rmap_Entries_def rmap_entry_def)
  have e0: "Entries (devices \<lparr>devices = deadmap\<rparr>) () = Inl TimeoutError"
    by (simp add: deadmap_def)
  have k1: "decoded proto \<lparr>Key = ''d1'', Value = d1_payload, Version = 1\<rparr> = Some d1_rev1"
    by code_simp
  have k2: "decodeDevice proto ''d2'' [10] 4 = Inl DecodeError"
    by code_simp
  then have k2': "decoded proto \<lparr>Key = ''d2'', Value = [10], Version = 4\<rparr> = None"
    by (simp add: decoded_def)
  have k3: "decoded proto \<lparr>Key = ''d3'', Value = [], Version = 7\<rparr> =
      Some (zero_Device\<lparr>ID := ''d3'', Revision := 7\<rparr>)"
    by code_simp
  have "List proto rstore ?m =
      (None, map Send (List.map_filter (decoded proto) ?kvs) @ (if True then [Close] else []))"
    using List_delivery [where s = rstore and m = ?m and kvs = ?kvs and closed = True
        and P = proto] en
    by blast
  then have l: "List proto rstore ?m =
      (None, [Send d1_rev1, Send (zero_Device\<lparr>ID := ''d3'', Revision := 7\<rparr>), Close])"
    by (simp add: List.map_filter_simps k1 k2' k3)
  have l0: "List proto \<lparr>devices = deadmap\<rparr> () = (Some TimeoutError, [])"
    using List_delivery [where s = "\<lparr>devices = deadmap\<rparr>" and m = "()" and e = TimeoutError
        and P = proto] e0
    by blast
  show ?thesis
    using en l k2 e0 l0 by blast
qed

subsection \<open>The payload\<close>

text \<open>
  C3, as stated: the payload that \<^verbatim>\<open>Store\<close> writes carries no id and no revision. It
  does: \<^verbatim>\<open>Store\<close> of the device \<^verbatim>\<open>d1\<close> at revision 1 writes bytes that begin with the
  field 1 (the id, \<^verbatim>\<open>d1\<close>) and the field 2 (the revision, 1), that decode to a device
  with that id and that revision, and that differ from the bytes of the same device
  without the two.
\<close>

theorem Store_payload_counterexample:
  "current_value (snd (snd (Store proto rstore [(''d1'', d1_payload, 1)] d1_rev1))) ''d1'' =
     Some ([10, 2, 100, 49, 16, 1] @ drop 6 d1_rev1_payload) \<and>
   Unmarshal proto ([10, 2, 100, 49, 16, 1] @ drop 6 d1_rev1_payload) = Inr d1_rev1 \<and>
   ID d1_rev1 = ''d1'' \<and> Revision d1_rev1 = 1 \<and>
   Marshal proto (d1_rev1\<lparr>ID := [], Revision := 0\<rparr>) = Inr (drop 6 d1_rev1_payload)"
  by code_simp

text \<open>
  C3, amended: \<^verbatim>\<open>Store\<close> encodes the device as it was passed, id and revision
  included. The payload that the map holds after a successful \<^verbatim>\<open>Store\<close> is the encoding
  of the whole device; with the protobuf wire format it decodes to the device that the
  caller passed, with the caller's id and the revision it had before the call.
\<close>

theorem Store_payload:
  "(Store P rstore r d = (None, d', r') \<longrightarrow>
      (\<exists>bytes. Marshal P d = Inr bytes \<and> current_value r' (ID d) = Some bytes)) \<and>
   (Store proto rstore r d = (None, d'', r'') \<longrightarrow>
      (\<exists>bytes. current_value r'' (ID d) = Some bytes \<and> Unmarshal proto bytes = Inr d))"
proof -
  have payload: "\<exists>bytes. Marshal P d = Inr bytes \<and> current_value r' (ID d) = Some bytes"
    if a: "Store P rstore r d = (None, d', r')" for P d' r'
  proof -
    from a obtain bytes where b: "Marshal P d = Inr bytes"
      by (auto simp: Store_def split: sum.splits)
    have "\<exists>v. r' = AList.update (ID d) (bytes, v) r"
    proof (cases "Revision d = 0")
      case True
      with a b show ?thesis
        by (auto simp: Store_unconditional rstore_Put rmap_Put_unconditional)
    next
      case False
      show ?thesis
      proof (cases "current_version r (ID d) = Some (to_int64 (Revision d))")
        case True
        with a b False show ?thesis
          by (auto simp: Store_conditional rstore_Put rmap_Put_match)
      next
        case c: False
        with a b False show ?thesis
          by (simp add: Store_conditional rstore_Put rmap_Put_conflict)
      qed
    qed
    then have "current_value r' (ID d) = Some bytes"
      by (auto simp: current_value_def update_conv')
    with b show ?thesis by blast
  qed
  show ?thesis
  proof (intro conjI impI)
    assume "Store P rstore r d = (None, d', r')"
    then show "\<exists>bytes. Marshal P d = Inr bytes \<and> current_value r' (ID d) = Some bytes"
      by (rule payload)
  next
    assume "Store proto rstore r d = (None, d'', r'')"
    then obtain bytes where "Marshal proto d = Inr bytes" and "current_value r'' (ID d) = Some bytes"
      using payload by blast
    then show "\<exists>bytes. current_value r'' (ID d) = Some bytes \<and> Unmarshal proto bytes = Inr d"
      using proto_Marshal_Unmarshal by blast
  qed
qed

theorem Store_payload_witness:
  "Store proto rstore [(''d1'', d1_payload, 1)] d1_rev1 =
     (None, d1_rev1\<lparr>Revision := 2\<rparr>, [(''d1'', d1_rev1_payload, 2)]) \<and>
   Marshal proto d1_rev1 = Inr d1_rev1_payload \<and>
   current_value [(''d1'', d1_rev1_payload, 2)] (ID d1_rev1) = Some d1_rev1_payload \<and>
   Unmarshal proto d1_rev1_payload = Inr d1_rev1"
proof -
  have s: "Store proto rstore [(''d1'', d1_payload, 1)] d1_rev1 =
      (None, d1_rev1\<lparr>Revision := 2\<rparr>, [(''d1'', d1_rev1_payload, 2)])"
    by code_simp
  note T = Store_payload [where P = proto and r = "[(''d1'', d1_payload, 1)]" and d = d1_rev1
      and d' = "d1_rev1\<lparr>Revision := 2\<rparr>" and r' = "[(''d1'', d1_rev1_payload, 2)]"
      and d'' = "d1_rev1\<lparr>Revision := 2\<rparr>" and r'' = "[(''d1'', d1_rev1_payload, 2)]"]
  from T [THEN conjunct1, THEN mp, OF s] obtain b1 where
    m1: "Marshal proto d1_rev1 = Inr b1" and
    v1: "current_value [(''d1'', d1_rev1_payload, 2)] (ID d1_rev1) = Some b1"
    by (elim exE conjE)
  from T [THEN conjunct2, THEN mp, OF s] obtain b2 where
    v2: "current_value [(''d1'', d1_rev1_payload, 2)] (ID d1_rev1) = Some b2" and
    u2: "Unmarshal proto b2 = Inr d1_rev1"
    by (elim exE conjE)
  have e1: "b1 = d1_rev1_payload"
    using m1 d1_rev1_Marshal by simp
  have e2: "b2 = d1_rev1_payload"
    using v1 v2 e1 by simp
  show ?thesis
    using s m1 v1 u2 e1 e2 by simp
qed

subsection \<open>Watch: the event translator\<close>

text \<open>
  C8, as stated: a raw event kind other than the three known ones becomes \<open>EventNone\<close>.
  It does not: the kind \<^verbatim>\<open>bogus\<close> comes out as the type \<^verbatim>\<open>bogus\<close>, which is none of the
  four event types.
\<close>

theorem Watch_unknown_kind_counterexample:
  "Watch_loop proto [\<lparr>EvType = ''bogus'', EvKey = ''d1'', EvValue = d1_payload, EvVersion = 1\<rparr>] =
     [Send \<lparr>Type = ''bogus'', Dev = d1_rev1\<rparr>] \<and>
   ''bogus'' \<noteq> EventNone \<and> ''bogus'' \<noteq> EventInserted \<and> ''bogus'' \<noteq> EventUpdated \<and>
   ''bogus'' \<noteq> EventRemoved"
  by code_simp

text \<open>
  C8, amended: the translator turns the raw kind into the event type by a conversion
  that keeps its text, so that the kinds \<^verbatim>\<open>inserted\<close>, \<^verbatim>\<open>updated\<close>, \<^verbatim>\<open>removed\<close> and the
  empty kind become \<open>EventInserted\<close>, \<open>EventUpdated\<close>, \<open>EventRemoved\<close> and \<open>EventNone\<close>,
  one to one, and any other kind is passed on as it is. The event carries the device
  decoded from the event's value, with the event's key and version as id and revision;
  an event whose value does not decode is passed over.
\<close>

theorem Watch_translate:
  "Watch_loop P events = map Send (List.map_filter (translate P) events) \<and>
   (decodeDevice P (EvKey event) (EvValue event) (EvVersion event) = Inr device \<longrightarrow>
      translate P event = Some \<lparr>Type = EvType event, Dev = device\<rparr>) \<and>
   (decodeDevice P (EvKey event) (EvValue event) (EvVersion event) = Inl e \<longrightarrow>
      translate P event = None) \<and>
   EventType ''inserted'' = EventInserted \<and> EventType ''updated'' = EventUpdated \<and>
   EventType ''removed'' = EventRemoved \<and> EventType [] = EventNone \<and>
   inj EventType \<and>
   (t \<notin> {[], ''inserted'', ''updated'', ''removed''} \<longrightarrow>
      EventType t = t \<and>
      EventType t \<notin> {EventNone, EventInserted, EventUpdated, EventRemoved})"
  by (simp add: Watch_loop_map_filter translate_def EventType_def EventNone_def
      EventInserted_def EventUpdated_def EventRemoved_def inj_def)

theorem Watch_translate_witness:
  "decodeDevice proto ''d1'' d1_payload 1 = Inr d1_rev1 \<and>
   translate proto \<lparr>EvType = ''updated'', EvKey = ''d1'', EvValue = d1_payload, EvVersion = 1\<rparr> =
     Some \<lparr>Type = EventUpdated, Dev = d1_rev1\<rparr> \<and>
   decodeDevice proto ''d2'' [10] 4 = Inl DecodeError \<and>
   translate proto \<lparr>EvType = ''updated'', EvKey = ''d2'', EvValue = [10], EvVersion = 4\<rparr> = None \<and>
   ''bogus'' \<notin> {[], ''inserted'', ''updated'', ''removed''} \<and>
   EventType ''bogus'' = ''bogus'' \<and>
   EventType ''bogus'' \<notin> {EventNone, EventInserted, EventUpdated, EventRemoved} \<and>
   Watch proto rstore [(''d1'', d1_payload, 1), (''d2'', [10], 4)] =
     (None, [Send \<lparr>Type = EventInserted, Dev = d1_rev1\<rparr>])"
proof -
  let ?e1 = "\<lparr>EvType = ''updated'', EvKey = ''d1'', EvValue = d1_payload, EvVersion = 1\<rparr>"
  let ?e2 = "\<lparr>EvType = ''updated'', EvKey = ''d2'', EvValue = [10], EvVersion = 4\<rparr>"
  have k1: "decodeDevice proto ''d1'' d1_payload 1 = Inr d1_rev1"
    by code_simp
  have k2: "decodeDevice proto ''d2'' [10] 4 = Inl DecodeError"
    by code_simp
  have b: "''bogus'' \<notin> {[], ''inserted'', ''updated'', ''removed''}"
    by simp
  note T1 = Watch_translate [where P = proto and events = "[]" and event = ?e1
      and device = d1_rev1 and e = DecodeError and t = "''bogus''"]
  note T2 = Watch_translate [where P = proto and events = "[]" and event = ?e2
      and device = d1_rev1 and e = DecodeError and t = "''bogus''"]
  have "translate proto ?e1 = Some \<lparr>Type = EvType ?e1, Dev = d1_rev1\<rparr>"
    using T1 [THEN conjunct2, THEN conjunct1] k1 by simp
  then have t1: "translate proto ?e1 = Some \<lparr>Type = EventUpdated, Dev = d1_rev1\<rparr>"
    by (simp add: EventUpdated_def)
  have t2: "translate proto ?e2 = None"
    using T2 [THEN conjunct2, THEN conjunct2, THEN conjunct1] k2 by simp
  note T9 = T1 [THEN conjunct2, THEN conjunct2, THEN conjunct2, THEN conjunct2, THEN conjunct2,
      THEN conjunct2, THEN conjunct2, THEN conjunct2, THEN mp, OF b]
  have w: "Watch proto rstore [(''d1'', d1_payload, 1), (''d2'', [10], 4)] =
      (None, [Send \<lparr>Type = EventInserted, Dev = d1_rev1\<rparr>])"
    by code_simp
  show ?thesis
    by (intro conjI k1 t1 k2 t2 b T9 [THEN conjunct1] T9 [THEN conjunct2] w)
qed

subsection \<open>Watch: the order of the feed\<close>

text \<open>
  The goroutine of \<^verbatim>\<open>Watch\<close> passes the events on in the order in which the map's feed
  delivers them: what it sends for a feed that continues another is what it sent for the
  first, followed by what it sends for the continuation. Whether the feed itself puts
  the replayed entries before the live events, and loses none of the writes made while
  the subscription is set up, is decided inside the map and between concurrent callers.
\<close>

lemma Watch_loop_append: "Watch_loop P (replay @ live) = Watch_loop P replay @ Watch_loop P live"
  by (induction replay) (auto split: sum.splits)

end
